theory Spec2Isabelle
  imports Main "HOL-Library.Char_ord" "HOL-Library.List_Lexorder" "HOL-Library.Multiset"
begin

section \<open>Strings and paths\<close>

text \<open>
  Shard locations, archive item names and record ids are Python strings or
  \<^verbatim>\<open>pathlib.Path\<close> objects. Both are modelled as \<^typ>\<open>string\<close>; the
  \<^verbatim>\<open>Path\<close> accessors the reader uses (\<^verbatim>\<open>name\<close>, \<^verbatim>\<open>stem\<close>, \<^verbatim>\<open>suffixes\<close>,
  the ordering used by \<^verbatim>\<open>sorted\<close>) are functions on the string, following
  \<^verbatim>\<open>PurePosixPath\<close>.
\<close>

type_synonym loc = string

text \<open>\<^verbatim>\<open>s.split(sep)\<close> for a one-character separator: never the empty list.\<close>

fun split_on :: "char \<Rightarrow> string \<Rightarrow> string list" where
  "split_on sep [] = [[]]"
| "split_on sep (c # cs) =
     (if c = sep then [] # split_on sep cs
      else (case split_on sep cs of
              [] \<Rightarrow> [[c]]
            | w # ws \<Rightarrow> (c # w) # ws))"

text \<open>\<^verbatim>\<open>s.rfind(c)\<close>: the index of the last occurrence, or \<open>-1\<close>.\<close>

definition rfind :: "char \<Rightarrow> string \<Rightarrow> int" where
  "rfind c s =
     (if c \<in> set s
      then int (length s) - 1 - int (length (takeWhile (\<lambda>x. x \<noteq> c) (rev s)))
      else - 1)"

text \<open>
  The components of a path: the text between separators, without the empty
  components and the \<^verbatim>\<open>.\<close> components.
\<close>

definition path_components :: "loc \<Rightarrow> string list" where
  "path_components p = filter (\<lambda>x. x \<noteq> [] \<and> x \<noteq> ''.'') (split_on CHR ''/'' p)"

definition path_root :: "loc \<Rightarrow> string" where
  "path_root p =
     (if take 2 p = ''//'' \<and> take 3 p \<noteq> ''///'' then ''//''
      else if take 1 p = ''/'' then ''/''
      else [])"

text \<open>\<^verbatim>\<open>Path.parts\<close>: what \<^verbatim>\<open>sorted\<close> compares two paths by.\<close>

definition path_parts :: "loc \<Rightarrow> string list" where
  "path_parts p = (if path_root p = [] then [] else [path_root p]) @ path_components p"

text \<open>\<^verbatim>\<open>Path.name\<close>: the last component, empty when there is none.\<close>

definition path_name :: "loc \<Rightarrow> string" where
  "path_name p = (case rev (path_components p) of [] \<Rightarrow> [] | n # _ \<Rightarrow> n)"

text \<open>\<^verbatim>\<open>Path.stem\<close>: the name without its last suffix.\<close>

definition stem :: "loc \<Rightarrow> string" where
  "stem p =
     (let name = path_name p; i = rfind CHR ''.'' name
      in if 0 < i \<and> i < int (length name) - 1 then take (nat i) name else name)"

text \<open>\<^verbatim>\<open>Path.suffixes\<close>: the dotted suffixes of the name.\<close>

definition name_suffixes :: "string \<Rightarrow> string list" where
  "name_suffixes name =
     (if name \<noteq> [] \<and> last name = CHR ''.'' then []
      else map (\<lambda>s. CHR ''.'' # s)
             (tl (split_on CHR ''.'' (dropWhile (\<lambda>c. c = CHR ''.'') name))))"

definition suffixes :: "loc \<Rightarrow> string list" where
  "suffixes p = name_suffixes (path_name p)"

text \<open>
  Modelled from the spec: \<^verbatim>\<open>lhotse.serialization.extension_contains\<close> is imported by
  the reader and is not part of the source under study. The reader asks it whether a
  location "denotes a binary archive" (\<^verbatim>\<open>.tar\<close>) or uses "a line-oriented-manifest
  extension" (\<^verbatim>\<open>.jsonl\<close>); it holds when the extension is one of the suffixes of
  the path.
\<close>

definition extension_contains :: "string \<Rightarrow> loc \<Rightarrow> bool" where
  "extension_contains ext p = (ext \<in> set (suffixes p))"

section \<open>Errors and values\<close>

text \<open>
  The reader raises \<^verbatim>\<open>AssertionError\<close> from its \<^verbatim>\<open>assert\<close> statements and
  \<^verbatim>\<open>KeyError\<close> from dictionary subscripts. The assertion errors are told apart by
  the statement that raised them.
\<close>

datatype error =
    NotExactlyOneInput        \<comment> \<open>\<^verbatim>\<open>assert exactly_one_not_null(fields, in_dir)\<close>\<close>
  | MissingCuts               \<comment> \<open>\<^verbatim>\<open>assert "cuts" in fields\<close> (both modes)\<close>
  | ShardCountMismatch string \<comment> \<open>\<^verbatim>\<open>assert len(self.streams[field]) == self.num_shards\<close>\<close>
  | MismatchedIDs string loc  \<comment> \<open>\<^verbatim>\<open>assert data_path.stem == cut.id\<close>\<close>
  | KeyError string           \<comment> \<open>a dictionary subscript with a missing key\<close>

text \<open>
  A Python value that may be \<^verbatim>\<open>None\<close> is an \<^typ>\<open>'v option\<close>. A deserialized
  manifest line is a dictionary from keys to such values.
\<close>

type_synonym 'v jsonl_item = "string \<rightharpoonup> 'v option"

text \<open>
  What a field stream hands over for one record: the value (or \<^verbatim>\<open>None\<close>) and
  the item's name.
\<close>

type_synonym 'v field_item = "'v option \<times> loc"

text \<open>
  A lazily evaluated stream: the items in the order they are pulled. An \<open>Inl\<close>
  item is an exception raised by the generator when that item is pulled; a generator
  that raised is finished.
\<close>

type_synonym 'v field_stream = "(error + 'v field_item) list"

section \<open>The archive stream adaptor\<close>

text \<open>
  \<^verbatim>\<open>_jsonl_tar_adaptor(jsonl_iter, field)\<close>. The first argument is the text that the
  f-string \<^verbatim>\<open>f"{item['cut_id']}.dummy"\<close> gives for a value (Python's \<^verbatim>\<open>format\<close>).
\<close>

fun jsonl_tar_adaptor ::
  "('v option \<Rightarrow> string) \<Rightarrow> 'v jsonl_item list \<Rightarrow> string \<Rightarrow> 'v field_stream" where
  "jsonl_tar_adaptor fmt [] field = []"
| "jsonl_tar_adaptor fmt (item # jsonl_iter) field =
     (case item ''cut_id'' of
        None \<Rightarrow> [Inl (KeyError ''cut_id'')]
      | Some cut_id \<Rightarrow>
          (let pseudo_path = fmt cut_id @ ''.dummy'' in
           (case item field of
              None \<Rightarrow> Inr (None, pseudo_path)
            | Some v \<Rightarrow> Inr (v, pseudo_path))
           # jsonl_tar_adaptor fmt jsonl_iter field))"

section \<open>Records and collaborators\<close>

text \<open>
  Modelled from the spec: the record class \<^verbatim>\<open>lhotse.cut.Cut\<close> is imported by the reader
  and is not part of the source under study. Following the spec's data model, a record
  is identified by a string id, carries attached field values as an explicit mapping
  from field name to value (what \<^verbatim>\<open>setattr(cut, field, value)\<close> writes), and a
  back-reference to the primary-field shard location it came from.
\<close>

record 'v cut =
  id_cut :: string
  attached :: "string \<rightharpoonup> 'v"
  shard_origin :: "loc option"

definition setattr :: "'v cut \<Rightarrow> string \<Rightarrow> 'v \<Rightarrow> 'v cut" where
  "setattr c field v = c\<lparr>attached := (attached c)(field \<mapsto> v)\<rparr>"

text \<open>
  A shard descriptor is a dictionary from field name to location; dictionaries whose
  iteration order the reader relies on are association lists in insertion order.
\<close>

type_synonym shard = "(string \<times> loc) list"

text \<open>
  The collaborators the reader calls, as functions of what they are given: the
  directory listing, the newline count of a file, the three stream constructors, the
  text of a value in an f-string, the two splitters of the ambient distributed context,
  and Python's \<^verbatim>\<open>random.Random(seed)\<close> with its \<^verbatim>\<open>shuffle\<close> method.
\<close>

record ('v, 'g) env =
  glob_all :: "loc \<Rightarrow> loc list"
  count_newlines_fast :: "loc \<Rightarrow> nat"
  LazyManifestIterator :: "loc \<Rightarrow> 'v cut list"
  LazyJsonlIterator :: "loc \<Rightarrow> 'v jsonl_item list"
  TarIterator :: "loc \<Rightarrow> 'v field_item list"
  format :: "'v option \<Rightarrow> string"
  split_by_node :: "shard list \<Rightarrow> shard list"
  split_by_worker :: "shard list \<Rightarrow> shard list"
  Random :: "int \<Rightarrow> 'g"
  shuffle :: "'g \<Rightarrow> shard list \<Rightarrow> shard list"

text \<open>
  Modelled from the spec: \<^verbatim>\<open>lhotse.utils.exactly_one_not_null\<close> and
  \<^verbatim>\<open>lhotse.utils.ifnone\<close> are imported by the reader and are not part of the source
  under study. The first holds when exactly one of the explicit mapping and the
  directory is supplied; the second gives the default for an optional argument.
\<close>

definition exactly_one_not_null :: "'a option \<Rightarrow> 'b option \<Rightarrow> bool" where
  "exactly_one_not_null a b = (length (filter (\<lambda>x. x) [a \<noteq> None, b \<noteq> None]) = 1)"

definition ifnone :: "'a option \<Rightarrow> 'a \<Rightarrow> 'a" where
  "ifnone item alt_item = (case item of None \<Rightarrow> alt_item | Some x \<Rightarrow> x)"

section \<open>The lazy source and its construction\<close>

text \<open>
  The instance. The type of the per-shard transforms is left open: the section on
  iteration takes them as functions on records, and the section after it as callables
  that keep state.
\<close>

record 'f lazy_shar_iterator =
  split_for_dataloading :: bool
  len_memo :: "nat option"
  in_dir :: "loc option"
  fields_set :: "string list"
  streams :: "(string \<times> loc list) list"
  num_shards :: nat
  shards :: "shard list"
  cut_map_fns :: "'f option list"

text \<open>
  \<^verbatim>\<open>_init_from_inputs\<close>: the field set (a duplicate-free list) and the streams.
\<close>

definition init_from_inputs ::
  "(string \<times> loc list) list \<Rightarrow> error + string list \<times> (string \<times> loc list) list" where
  "init_from_inputs fs =
     (if ''cuts'' \<in> set (map fst fs)
      then Inr (removeAll ''cuts'' (remdups (map fst fs)), fs)
      else Inl MissingCuts)"

text \<open>
  \<^verbatim>\<open>_init_from_dir\<close>, given \<^verbatim>\<open>all_paths\<close>. Python leaves the iteration order of the
  field set open; the list keeps the order of first occurrence.
\<close>

definition init_from_dir ::
  "loc list \<Rightarrow> error + string list \<times> (string \<times> loc list) list" where
  "init_from_dir all_paths =
     (let fs = remdups (map (\<lambda>p. hd (split_on CHR ''.'' (stem p))) all_paths) in
      if ''cuts'' \<notin> set fs then Inl MissingCuts
      else
        (let fs' = removeAll ''cuts'' fs
         in Inr (fs',
              (''cuts'',
               sort_key path_parts
                 (filter (\<lambda>p. hd (split_on CHR ''.'' (path_name p)) = ''cuts''
                              \<and> extension_contains ''.jsonl'' p) all_paths))
              # map (\<lambda>field.
                       (field,
                        sort_key path_parts
                          (filter (\<lambda>p. hd (split_on CHR ''.'' (path_name p)) = field)
                             all_paths)))
                  fs')))"

text \<open>
  The loop \<^verbatim>\<open>for field in self.fields: assert len(self.streams[field]) == self.num_shards\<close>:
  the first failure, if any.
\<close>

fun check_shard_counts ::
  "(string \<times> loc list) list \<Rightarrow> nat \<Rightarrow> string list \<Rightarrow> error option" where
  "check_shard_counts strs n [] = None"
| "check_shard_counts strs n (field # rest) =
     (case map_of strs field of
        None \<Rightarrow> Some (KeyError field)
      | Some locs \<Rightarrow>
          if length locs = n then check_shard_counts strs n rest
          else Some (ShardCountMismatch field))"

text \<open>
  \<^verbatim>\<open>__init__\<close>. The second argument is the state of the generator shared by the
  whole process (the one behind \<^verbatim>\<open>random.shuffle\<close>), returned as the constructor
  leaves it. The lists of \<^verbatim>\<open>self.streams\<close> are indexed by \<^verbatim>\<open>range(self.num_shards)\<close>
  only after every length has been checked.
\<close>

definition construct ::
  "('v, 'g) env \<Rightarrow> 'g \<Rightarrow> (string \<times> loc list) list option \<Rightarrow> loc option \<Rightarrow> bool \<Rightarrow> bool
     \<Rightarrow> int \<Rightarrow> 'f option list option
     \<Rightarrow> (error + 'f lazy_shar_iterator) \<times> 'g" where
  "construct e global_rng fs dir split shuffle_shards seed fns =
     (if \<not> exactly_one_not_null fs dir then (Inl NotExactlyOneInput, global_rng)
      else
        (case (case dir of
                 Some d \<Rightarrow> init_from_dir (glob_all e d)
               | None \<Rightarrow>
                   (case fs of
                      Some f \<Rightarrow> init_from_inputs f
                    | None \<Rightarrow> Inl NotExactlyOneInput)) of
           Inl err \<Rightarrow> (Inl err, global_rng)
         | Inr (flds, strs) \<Rightarrow>
             (case map_of strs ''cuts'' of
                None \<Rightarrow> (Inl (KeyError ''cuts''), global_rng)
              | Some primary \<Rightarrow>
                  (let n = length primary in
                   (case check_shard_counts strs n flds of
                      Some err \<Rightarrow> (Inl err, global_rng)
                    | None \<Rightarrow>
                        (let shs = map (\<lambda>shard_idx.
                                          map (\<lambda>(field, locs). (field, locs ! shard_idx)) strs)
                                     [0..<n]
                         in (Inr \<lparr>split_for_dataloading = split,
                                   len_memo = None,
                                   in_dir = dir,
                                   fields_set = flds,
                                   streams = strs,
                                   num_shards = n,
                                   shards = (if shuffle_shards
                                             then shuffle e (Random e seed) shs
                                             else shs),
                                   cut_map_fns = ifnone fns (replicate n None)\<rparr>,
                             global_rng)))))))"

section \<open>Iteration\<close>

text \<open>
  One call of \<^verbatim>\<open>next\<close> on \<^verbatim>\<open>zip(cuts, *field_iters.values())\<close>, after the primary
  stream has handed over its record: the field streams are pulled from left to right.
  The first exhausted stream ends the walk and the first raising stream raises; the
  streams to its right are not touched. The result comes with the streams as the call
  leaves them.
\<close>

datatype 'a pulled = Exhausted | Raised error | Got 'a

fun next_fields ::
  "'v field_stream list \<Rightarrow> 'v field_item list pulled \<times> 'v field_stream list" where
  "next_fields [] = (Got [], [])"
| "next_fields ([] # iters) = (Exhausted, [] # iters)"
| "next_fields ((Inl err # it) # iters) = (Raised err, it # iters)"
| "next_fields ((Inr x # it) # iters) =
     (case next_fields iters of
        (Got xs, iters') \<Rightarrow> (Got (x # xs), it # iters')
      | (Exhausted, iters') \<Rightarrow> (Exhausted, it # iters')
      | (Raised err, iters') \<Rightarrow> (Raised err, it # iters'))"

text \<open>
  The inner loop over \<^verbatim>\<open>zip(field_iters.keys(), field_data)\<close>: a placeholder is
  skipped, a value is attached after the name check.
\<close>

fun attach_fields :: "'v cut \<Rightarrow> (string \<times> 'v field_item) list \<Rightarrow> error + 'v cut" where
  "attach_fields c [] = Inr c"
| "attach_fields c ((field, (maybe_manifest, data_path)) # rest) =
     (case maybe_manifest of
        None \<Rightarrow> attach_fields c rest
      | Some manifest \<Rightarrow>
          if stem data_path = id_cut c
          then attach_fields (setattr c field manifest) rest
          else Inl (MismatchedIDs (id_cut c) data_path))"

text \<open>
  What a traversal leaves behind: the records yielded, in order; the exception that
  ended it, if any; and, for one shard, the streams as the walk leaves them.
\<close>

record 'v merged =
  yielded :: "'v cut list"
  raised :: "error option"
  cuts_left :: "'v cut list"
  fields_left :: "'v field_stream list"

text \<open>
  \<^verbatim>\<open>if cut_map_fn is not None: cut = cut_map_fn(cut)\<close>.
\<close>

definition apply_cut_map_fn :: "('v cut \<Rightarrow> 'v cut) option \<Rightarrow> 'v cut \<Rightarrow> 'v cut" where
  "apply_cut_map_fn cut_map_fn c = (case cut_map_fn of None \<Rightarrow> c | Some f \<Rightarrow> f c)"

text \<open>
  The loop \<^verbatim>\<open>for cut, *field_data in zip(cuts, *field_iters.values())\<close> of one shard.
\<close>

fun merge_shard ::
  "loc \<Rightarrow> ('v cut \<Rightarrow> 'v cut) option \<Rightarrow> string list \<Rightarrow> 'v cut list \<Rightarrow> 'v field_stream list
     \<Rightarrow> 'v merged" where
  "merge_shard origin cut_map_fn names [] iters =
     \<lparr>yielded = [], raised = None, cuts_left = [], fields_left = iters\<rparr>"
| "merge_shard origin cut_map_fn names (c # cuts) iters =
     (case next_fields iters of
        (Exhausted, iters') \<Rightarrow>
          \<lparr>yielded = [], raised = None, cuts_left = cuts, fields_left = iters'\<rparr>
      | (Raised err, iters') \<Rightarrow>
          \<lparr>yielded = [], raised = Some err, cuts_left = cuts, fields_left = iters'\<rparr>
      | (Got field_data, iters') \<Rightarrow>
          (case attach_fields c (zip names field_data) of
             Inl err \<Rightarrow>
               \<lparr>yielded = [], raised = Some err, cuts_left = cuts, fields_left = iters'\<rparr>
           | Inr c' \<Rightarrow>
               (let out = apply_cut_map_fn cut_map_fn (c'\<lparr>shard_origin := Some origin\<rparr>);
                    r = merge_shard origin cut_map_fn names cuts iters'
                in r\<lparr>yielded := out # yielded r\<rparr>)))"

text \<open>Opening one field's stream: an archive, or a manifest behind the adaptor.\<close>

definition open_field :: "('v, 'g) env \<Rightarrow> string \<Rightarrow> loc \<Rightarrow> 'v field_stream" where
  "open_field e field path =
     (if extension_contains ''.tar'' path then map Inr (TarIterator e path)
      else jsonl_tar_adaptor (format e) (LazyJsonlIterator e path) field)"

text \<open>The body of the loop over shards, for one shard and its transform.\<close>

definition iter_shard ::
  "('v, 'g) env \<Rightarrow> shard \<Rightarrow> ('v cut \<Rightarrow> 'v cut) option \<Rightarrow> 'v merged" where
  "iter_shard e shard cut_map_fn =
     (case map_of shard ''cuts'' of
        None \<Rightarrow>
          \<lparr>yielded = [], raised = Some (KeyError ''cuts''), cuts_left = [], fields_left = []\<rparr>
      | Some origin \<Rightarrow>
          (let field_paths = filter (\<lambda>(field, path). field \<noteq> ''cuts'') shard;
               field_iters = map (\<lambda>(field, path). (field, open_field e field path)) field_paths
           in merge_shard origin cut_map_fn (map fst field_iters)
                (LazyManifestIterator e origin) (map snd field_iters)))"

text \<open>
  The loop \<^verbatim>\<open>for shard, cut_map_fn in zip(shards, self.cut_map_fns)\<close>: an exception ends
  the whole iteration.
\<close>

fun iter_shards ::
  "('v, 'g) env \<Rightarrow> (shard \<times> ('v cut \<Rightarrow> 'v cut) option) list \<Rightarrow> 'v cut list \<times> error option" where
  "iter_shards e [] = ([], None)"
| "iter_shards e ((shard, cut_map_fn) # rest) =
     (let r = iter_shard e shard cut_map_fn in
      (case raised r of
         Some err \<Rightarrow> (yielded r, Some err)
       | None \<Rightarrow> (case iter_shards e rest of (ys, err) \<Rightarrow> (yielded r @ ys, err))))"

definition shards_for_dataloading :: "('v, 'g) env \<Rightarrow> 'f lazy_shar_iterator \<Rightarrow> shard list" where
  "shards_for_dataloading e self = split_by_worker e (split_by_node e (shards self))"

text \<open>
  \<^verbatim>\<open>__iter__\<close>, run to its end: what it yields and how it ends, with the instance as
  the call leaves it.
\<close>

definition iter_shar ::
  "('v, 'g) env \<Rightarrow> ('v cut \<Rightarrow> 'v cut) lazy_shar_iterator
     \<Rightarrow> ('v cut list \<times> error option) \<times> ('v cut \<Rightarrow> 'v cut) lazy_shar_iterator" where
  "iter_shar e self =
     (let shs = (if split_for_dataloading self then shards_for_dataloading e self
                 else shards self)
      in (iter_shards e (zip shs (cut_map_fns self)), self))"

text \<open>\<^verbatim>\<open>__len__\<close>: the count and the instance as the call leaves it.\<close>

definition len_shar ::
  "('v, 'g) env \<Rightarrow> 'f lazy_shar_iterator \<Rightarrow> (error + nat) \<times> 'f lazy_shar_iterator" where
  "len_shar e self =
     (case len_memo self of
        Some n \<Rightarrow> (Inr n, self)
      | None \<Rightarrow>
          (case map_of (streams self) ''cuts'' of
             None \<Rightarrow> (Inl (KeyError ''cuts''), self)
           | Some primary \<Rightarrow>
               (let n = sum_list (map (count_newlines_fast e) primary)
                in (Inr n, self\<lparr>len_memo := Some n\<rparr>))))"

section \<open>Iteration with transforms that keep state\<close>

text \<open>
  A per-shard transform is any Python callable, and a callable may keep state between
  its calls (a counter in a closure, an attribute of an object). The world is the state
  that the transforms can reach; a callable takes the world and a record and gives the
  record it returns and the world as it leaves it. The loops of \<^verbatim>\<open>__iter__\<close> are the
  loops above, with the world handed from each call of a transform to the next.
\<close>

type_synonym ('v, 'w) callable = "'w \<Rightarrow> 'v cut \<Rightarrow> 'v cut \<times> 'w"

text \<open>\<^verbatim>\<open>if cut_map_fn is not None: cut = cut_map_fn(cut)\<close>, in a world.\<close>

definition call_cut_map_fn ::
  "('v, 'w) callable option \<Rightarrow> 'w \<Rightarrow> 'v cut \<Rightarrow> 'v cut \<times> 'w" where
  "call_cut_map_fn cut_map_fn w c = (case cut_map_fn of None \<Rightarrow> (c, w) | Some f \<Rightarrow> f w c)"

fun merge_shard_w ::
  "loc \<Rightarrow> ('v, 'w) callable option \<Rightarrow> string list \<Rightarrow> 'v cut list \<Rightarrow> 'v field_stream list
     \<Rightarrow> 'w \<Rightarrow> 'v merged \<times> 'w" where
  "merge_shard_w origin cut_map_fn names [] iters w =
     (\<lparr>yielded = [], raised = None, cuts_left = [], fields_left = iters\<rparr>, w)"
| "merge_shard_w origin cut_map_fn names (c # cuts) iters w =
     (case next_fields iters of
        (Exhausted, iters') \<Rightarrow>
          (\<lparr>yielded = [], raised = None, cuts_left = cuts, fields_left = iters'\<rparr>, w)
      | (Raised err, iters') \<Rightarrow>
          (\<lparr>yielded = [], raised = Some err, cuts_left = cuts, fields_left = iters'\<rparr>, w)
      | (Got field_data, iters') \<Rightarrow>
          (case attach_fields c (zip names field_data) of
             Inl err \<Rightarrow>
               (\<lparr>yielded = [], raised = Some err, cuts_left = cuts, fields_left = iters'\<rparr>, w)
           | Inr c' \<Rightarrow>
               (case call_cut_map_fn cut_map_fn w (c'\<lparr>shard_origin := Some origin\<rparr>) of
                  (out, w') \<Rightarrow>
                    (case merge_shard_w origin cut_map_fn names cuts iters' w' of
                       (r, w'') \<Rightarrow> (r\<lparr>yielded := out # yielded r\<rparr>, w'')))))"

definition iter_shard_w ::
  "('v, 'g) env \<Rightarrow> shard \<Rightarrow> ('v, 'w) callable option \<Rightarrow> 'w \<Rightarrow> 'v merged \<times> 'w" where
  "iter_shard_w e shard cut_map_fn w =
     (case map_of shard ''cuts'' of
        None \<Rightarrow>
          (\<lparr>yielded = [], raised = Some (KeyError ''cuts''), cuts_left = [], fields_left = []\<rparr>,
           w)
      | Some origin \<Rightarrow>
          (let field_paths = filter (\<lambda>(field, path). field \<noteq> ''cuts'') shard;
               field_iters = map (\<lambda>(field, path). (field, open_field e field path)) field_paths
           in merge_shard_w origin cut_map_fn (map fst field_iters)
                (LazyManifestIterator e origin) (map snd field_iters) w))"

fun iter_shards_w ::
  "('v, 'g) env \<Rightarrow> (shard \<times> ('v, 'w) callable option) list \<Rightarrow> 'w
     \<Rightarrow> ('v cut list \<times> error option) \<times> 'w" where
  "iter_shards_w e [] w = (([], None), w)"
| "iter_shards_w e ((shard, cut_map_fn) # rest) w =
     (case iter_shard_w e shard cut_map_fn w of
        (r, w') \<Rightarrow>
          (case raised r of
             Some err \<Rightarrow> ((yielded r, Some err), w')
           | None \<Rightarrow>
               (case iter_shards_w e rest w' of
                  ((ys, err), w'') \<Rightarrow> ((yielded r @ ys, err), w''))))"

text \<open>
  \<^verbatim>\<open>__iter__\<close>, run to its end in a world: what it yields and how it ends, with the
  instance and the world as the call leaves them.
\<close>

definition iter_shar_w ::
  "('v, 'g) env \<Rightarrow> ('v, 'w) callable lazy_shar_iterator \<Rightarrow> 'w
     \<Rightarrow> ('v cut list \<times> error option) \<times> ('v, 'w) callable lazy_shar_iterator \<times> 'w" where
  "iter_shar_w e self w =
     (let shs = (if split_for_dataloading self then shards_for_dataloading e self
                 else shards self)
      in (case iter_shards_w e (zip shs (cut_map_fns self)) w of
            (res, w') \<Rightarrow> (res, self, w')))"

text \<open>
  A caller that iterates the source to its end twice: the second pass runs on the
  instance and in the world that the first pass left. The result is what each pass
  yielded and how it ended, with the instance and the world after the second pass.
\<close>

definition iterate_twice ::
  "('v, 'g) env \<Rightarrow> ('v, 'w) callable lazy_shar_iterator \<Rightarrow> 'w
     \<Rightarrow> ('v cut list \<times> error option) \<times> ('v cut list \<times> error option)
         \<times> ('v, 'w) callable lazy_shar_iterator \<times> 'w" where
  "iterate_twice e self w =
     (case iter_shar_w e self w of
        (first, self', w') \<Rightarrow>
          (case iter_shar_w e self' w' of
             (second, self'', w'') \<Rightarrow> (first, second, self'', w'')))"

section \<open>Notions used by the properties\<close>

subsection \<open>The adaptor's contract\<close>

text \<open>
  The pair the adaptor owes for one source record: the record's value for the field
  (or none when it has none), under a name whose stem is the record's id.
\<close>

definition adapted_pair ::
  "('v option \<Rightarrow> string) \<Rightarrow> string \<Rightarrow> 'v jsonl_item \<Rightarrow> error + 'v field_item \<Rightarrow> bool" where
  "adapted_pair fmt field item out =
     (case (item ''cut_id'', out) of
        (Some c, Inr (v, pseudo_name)) \<Rightarrow>
          stem pseudo_name = fmt c \<and> v = (case item field of None \<Rightarrow> None | Some w \<Rightarrow> w)
      | _ \<Rightarrow> False)"

text \<open>A source record whose id can be the stem of a file name.\<close>

definition id_is_file_name :: "('v option \<Rightarrow> string) \<Rightarrow> 'v jsonl_item \<Rightarrow> bool" where
  "id_is_file_name fmt item =
     (case item ''cut_id'' of
        None \<Rightarrow> False
      | Some c \<Rightarrow> fmt c \<noteq> [] \<and> CHR ''/'' \<notin> set (fmt c))"

subsection \<open>The resolver's contract\<close>

text \<open>The leading component of a name, before the first extension separator.\<close>

definition name_field :: "string \<Rightarrow> string" where
  "name_field name = takeWhile (\<lambda>c. c \<noteq> CHR ''.'') name"

text \<open>The leading component of a file's name, before the first extension separator.\<close>

definition field_of_path :: "loc \<Rightarrow> string" where
  "field_of_path p = takeWhile (\<lambda>c. c \<noteq> CHR ''.'') (path_name p)"

text \<open>
  The configuration errors of the spec: neither or both of the mapping and the
  directory; the primary field missing from the mapping or from the scan; a field whose
  shard count disagrees with the primary field's. In a directory the primary field's
  shards are its files with a line-oriented-manifest extension.
\<close>

definition configuration_error ::
  "('v, 'g) env \<Rightarrow> (string \<times> loc list) list option \<Rightarrow> loc option \<Rightarrow> bool" where
  "configuration_error e fs dir =
     (case (fs, dir) of
        (None, None) \<Rightarrow> True
      | (Some f, Some d) \<Rightarrow> True
      | (Some f, None) \<Rightarrow>
          (case map_of f ''cuts'' of
             None \<Rightarrow> True
           | Some primary \<Rightarrow>
               list_ex (\<lambda>field. map_option length (map_of f field) \<noteq> Some (length primary))
                 (map fst f))
      | (None, Some d) \<Rightarrow>
          (let ps = glob_all e d;
               primary = filter (\<lambda>p. field_of_path p = ''cuts'' \<and> extension_contains ''.jsonl'' p) ps
           in list_all (\<lambda>p. field_of_path p \<noteq> ''cuts'') ps
              \<or> list_ex (\<lambda>q. field_of_path q \<noteq> ''cuts''
                             \<and> length (filter (\<lambda>p. field_of_path p = field_of_path q) ps)
                                 \<noteq> length primary) ps))"

text \<open>
  The primary field's shard locations: its list in the mapping, or its files with a
  line-oriented-manifest extension in the directory.
\<close>

definition primary_locations ::
  "('v, 'g) env \<Rightarrow> (string \<times> loc list) list option \<Rightarrow> loc option \<Rightarrow> loc list" where
  "primary_locations e fs dir =
     (case dir of
        Some d \<Rightarrow>
          filter (\<lambda>p. field_of_path p = ''cuts'' \<and> extension_contains ''.jsonl'' p) (glob_all e d)
      | None \<Rightarrow>
          (case fs of
             None \<Rightarrow> []
           | Some f \<Rightarrow> (case map_of f ''cuts'' of None \<Rightarrow> [] | Some primary \<Rightarrow> primary)))"

subsection \<open>Aligned streams\<close>

text \<open>An item that attaches to a record without fault: a placeholder, or a value named after it.\<close>

fun item_ok :: "'v cut \<Rightarrow> error + 'v field_item \<Rightarrow> bool" where
  "item_ok c (Inl err) = False"
| "item_ok c (Inr (None, data_path)) = True"
| "item_ok c (Inr (Some manifest, data_path)) = (stem data_path = id_cut c)"

text \<open>
  Streams aligned with the primary stream: in every complete round each item attaches
  without fault, and in the round that meets an exhausted stream no stream pulled before
  it raises.
\<close>

fun aligned :: "'v cut list \<Rightarrow> 'v field_stream list \<Rightarrow> bool" where
  "aligned [] iters = True"
| "aligned (c # cuts) iters =
     (if list_ex (\<lambda>it. it = []) iters
      then list_all (\<lambda>it. \<not> isl (hd it)) (takeWhile (\<lambda>it. it \<noteq> []) iters)
      else list_all (\<lambda>it. item_ok c (hd it)) iters \<and> aligned cuts (map tl iters))"

text \<open>
  The field streams after a walk of \<open>n\<close> complete rounds: a stream pulled in the
  round after them (\<open>go\<close>: every stream before it had an item) has lost one more item.
\<close>

fun left_after :: "nat \<Rightarrow> bool \<Rightarrow> 'a list list \<Rightarrow> 'a list list" where
  "left_after n go [] = []"
| "left_after n go (it # iters) =
     (if go \<and> n < length it then drop (Suc n) it # left_after n True iters
      else drop n it # left_after n False iters)"

text \<open>The least of the stream lengths, the primary stream's being \<open>n\<close>.\<close>

definition shortest :: "nat \<Rightarrow> 'a list list \<Rightarrow> nat" where
  "shortest n iters = foldr (\<lambda>it m. min (length it) m) iters n"

text \<open>The primary location of a shard descriptor.\<close>

definition origin_of :: "shard \<Rightarrow> loc" where
  "origin_of shard = (case map_of shard ''cuts'' of None \<Rightarrow> [] | Some l \<Rightarrow> l)"

subsection \<open>A sample data set\<close>

text \<open>
  Two shards under \<^verbatim>\<open>data\<close> with a \<^verbatim>\<open>recording\<close> archive each, and three more
  archives for the first shard: one whose second item has a foreign name, one whose
  second item is a placeholder with a foreign name, one with a single item. Values are
  strings, and the text of a string in an f-string is the string. The generator state
  is the seed; \<^verbatim>\<open>random.Random(42).shuffle\<close> exchanges the two elements of a
  two-element list, as CPython does.
\<close>

definition fmt_str :: "string option \<Rightarrow> string" where
  "fmt_str v = (case v of None \<Rightarrow> ''None'' | Some s \<Rightarrow> s)"

definition sample_cut :: "string \<Rightarrow> string cut" where
  "sample_cut i = \<lparr>id_cut = i, attached = Map.empty, shard_origin = None\<rparr>"

definition sample_env :: "(string, int) env" where
  "sample_env =
     \<lparr>glob_all = (\<lambda>d. if d = ''data''
                       then [''data/recording.000001.tar'', ''data/cuts.000000.jsonl'',
                             ''data/recording.000000.tar'', ''data/cuts.000001.jsonl'']
                       else []),
      count_newlines_fast = (\<lambda>p. if p = ''data/cuts.000000.jsonl'' then 2
                                  else if p = ''data/cuts.000001.jsonl'' then 1 else 0),
      LazyManifestIterator =
        (\<lambda>p. if p = ''data/cuts.000000.jsonl'' then [sample_cut ''a'', sample_cut ''b'']
              else if p = ''data/cuts.000001.jsonl'' then [sample_cut ''c'']
              else []),
      LazyJsonlIterator = (\<lambda>p. []),
      TarIterator =
        (\<lambda>p. if p = ''data/recording.000000.tar''
                then [(Some ''A'', ''a.flac''), (Some ''B'', ''b.flac'')]
              else if p = ''data/recording.000001.tar'' then [(Some ''C'', ''c.flac'')]
              else if p = ''bad/recording.000000.tar''
                then [(Some ''A'', ''a.flac''), (Some ''B'', ''c.bin'')]
              else if p = ''gap/recording.000000.tar''
                then [(Some ''A'', ''a.flac''), (None, ''c.bin'')]
              else if p = ''short/recording.000000.tar'' then [(Some ''A'', ''a.flac'')]
              else []),
      format = fmt_str,
      split_by_node = (\<lambda>shs. shs),
      split_by_worker = (\<lambda>shs. shs),
      Random = (\<lambda>seed. seed),
      shuffle = (\<lambda>g shs. case shs of [x, y] \<Rightarrow> if g = 42 then [y, x] else shs | _ \<Rightarrow> shs)\<rparr>"

text \<open>A transform that tags a record with a marker.\<close>

definition mark :: "string \<Rightarrow> string cut \<Rightarrow> string cut" where
  "mark m c = setattr c ''marker'' m"

text \<open>A transform that hands back the record without its stamp, as a copy of it would.\<close>

definition unstamp :: "string cut \<Rightarrow> string cut" where
  "unstamp c = c\<lparr>shard_origin := None\<rparr>"

subsection \<open>Transforms and the world\<close>

text \<open>A transform that leaves the world as it finds it.\<close>

definition keeps_world :: "('v, 'w) callable option \<Rightarrow> bool" where
  "keeps_world cut_map_fn =
     (case cut_map_fn of None \<Rightarrow> True | Some f \<Rightarrow> (\<forall>w c. snd (f w c) = w))"

text \<open>The function on records that a transform computes in a given world.\<close>

definition fn_at :: "'w \<Rightarrow> ('v, 'w) callable option \<Rightarrow> ('v cut \<Rightarrow> 'v cut) option" where
  "fn_at w cut_map_fn = map_option (\<lambda>f c. fst (f w c)) cut_map_fn"

text \<open>
  Two sample callables over a world that counts calls: one tags a record with a marker
  and leaves the world alone; the other tags the first record it ever sees differently
  from the later ones and counts the call.
\<close>

definition mark_w :: "string \<Rightarrow> (string, nat) callable" where
  "mark_w m w c = (mark m c, w)"

definition tag_pass :: "(string, nat) callable" where
  "tag_pass w c = (setattr c ''seen'' (if w = 0 then ''first'' else ''again''), Suc w)"

definition seen :: "string cut \<Rightarrow> string option" where
  "seen c = attached c ''seen''"

subsection \<open>What construction resolves\<close>

text \<open>
  The branch \<^verbatim>\<open>if in_dir is not None: ... else: ...\<close> of the constructor: the field
  set and the streams of the chosen mode.
\<close>

definition resolved ::
  "('v, 'g) env \<Rightarrow> (string \<times> loc list) list option \<Rightarrow> loc option
     \<Rightarrow> error + string list \<times> (string \<times> loc list) list" where
  "resolved e fs dir =
     (case dir of
        Some d \<Rightarrow> init_from_dir (glob_all e d)
      | None \<Rightarrow> (case fs of Some f \<Rightarrow> init_from_inputs f | None \<Rightarrow> Inl NotExactlyOneInput))"

text \<open>The shard descriptors in shard order, before any shuffle.\<close>

definition unshuffled :: "(string \<times> loc list) list \<Rightarrow> nat \<Rightarrow> shard list" where
  "unshuffled strs n =
     map (\<lambda>shard_idx. map (\<lambda>(field, locs). (field, locs ! shard_idx)) strs) [0..<n]"

section \<open>Properties of the adaptor\<close>

lemma split_on_not_Nil: "split_on sep s \<noteq> []"
  by (induction s) (auto split: list.splits)

lemma split_on_absent: "sep \<notin> set s \<Longrightarrow> split_on sep s = [s]"
  by (induction s) auto

lemma path_name_plain:
  "CHR ''/'' \<notin> set s \<Longrightarrow> s \<noteq> [] \<Longrightarrow> s \<noteq> ''.'' \<Longrightarrow> path_name s = s"
  by (simp add: path_name_def path_components_def split_on_absent)

lemma rfind_append_dummy: "rfind CHR ''.'' (s @ ''.dummy'') = int (length s)"
  by (simp add: rfind_def)

lemma stem_dummy:
  assumes "s \<noteq> []" "CHR ''/'' \<notin> set s"
  shows "stem (s @ ''.dummy'') = s"
proof -
  have "path_name (s @ ''.dummy'') = s @ ''.dummy''"
    using assms by (intro path_name_plain) auto
  then show ?thesis
    using assms by (simp add: stem_def rfind_append_dummy Let_def)
qed

text \<open>
  Claim C7, as amended. For a manifest stream whose records all carry a \<^verbatim>\<open>cut_id\<close>
  whose text is not empty and has no path separator, the adaptor emits one pair per
  source record, in order: the record's value for the field, or none when the record has
  no value for it, under a pseudo name whose stem is the record's id.
\<close>

theorem adaptor_pairs:
  "list_all (id_is_file_name fmt) items \<Longrightarrow>
   list_all2 (adapted_pair fmt field) items (jsonl_tar_adaptor fmt items field)"
  by (induction items)
     (auto simp: id_is_file_name_def adapted_pair_def stem_dummy Let_def split: option.splits)

theorem adaptor_pairs_witness:
  "list_all (id_is_file_name fmt_str)
     [[''cut_id'' \<mapsto> Some ''a'', ''feat'' \<mapsto> Some ''x''], [''cut_id'' \<mapsto> Some ''b'']]
   \<and> list_all2 (adapted_pair fmt_str ''feat'')
     [[''cut_id'' \<mapsto> Some ''a'', ''feat'' \<mapsto> Some ''x''], [''cut_id'' \<mapsto> Some ''b'']]
     (jsonl_tar_adaptor fmt_str
        [[''cut_id'' \<mapsto> Some ''a'', ''feat'' \<mapsto> Some ''x''], [''cut_id'' \<mapsto> Some ''b'']] ''feat'')
   \<and> jsonl_tar_adaptor fmt_str
        [[''cut_id'' \<mapsto> Some ''a'', ''feat'' \<mapsto> Some ''x''], [''cut_id'' \<mapsto> Some ''b'']] ''feat''
      = [Inr (Some ''x'', ''a.dummy''), Inr (None, ''b.dummy'')]"
proof -
  have h: "list_all (id_is_file_name fmt_str)
     [[''cut_id'' \<mapsto> Some ''a'', ''feat'' \<mapsto> Some ''x''], [''cut_id'' \<mapsto> Some ''b'']]"
    by (simp add: id_is_file_name_def fmt_str_def)
  have v: "jsonl_tar_adaptor fmt_str
        [[''cut_id'' \<mapsto> Some ''a'', ''feat'' \<mapsto> Some ''x''], [''cut_id'' \<mapsto> Some ''b'']] ''feat''
      = [Inr (Some ''x'', ''a.dummy''), Inr (None, ''b.dummy'')]"
    by (simp add: fmt_str_def)
  from adaptor_pairs [OF h, of "''feat''"] h v show ?thesis by blast
qed

text \<open>
  Claim C7 as stated fails for a record whose id has a path separator: the stem of the
  pseudo name \<^verbatim>\<open>a/b.dummy\<close> is \<^verbatim>\<open>b\<close>, not the id \<^verbatim>\<open>a/b\<close>.
\<close>

theorem adaptor_stem_counterexample:
  "jsonl_tar_adaptor fmt_str [[''cut_id'' \<mapsto> Some ''a/b'', ''feat'' \<mapsto> Some ''x'']] ''feat''
     = [Inr (Some ''x'', ''a/b.dummy'')]
   \<and> stem ''a/b.dummy'' = ''b''
   \<and> \<not> list_all2 (adapted_pair fmt_str ''feat'')
        [[''cut_id'' \<mapsto> Some ''a/b'', ''feat'' \<mapsto> Some ''x'']]
        (jsonl_tar_adaptor fmt_str [[''cut_id'' \<mapsto> Some ''a/b'', ''feat'' \<mapsto> Some ''x'']] ''feat'')"
  by (simp add: adapted_pair_def fmt_str_def stem_def path_name_def path_components_def
        rfind_def Let_def)

section \<open>Properties of construction and length\<close>

lemma construct_global: "snd (construct e g fs dir split sh seed fns) = g"
  by (simp add: construct_def Let_def split: option.splits sum.splits prod.splits)

lemma construct_Inr:
  assumes "construct e g fs dir split sh seed fns = (Inr a, h)"
  shows "\<exists>flds strs primary.
           exactly_one_not_null fs dir
         \<and> resolved e fs dir = Inr (flds, strs)
         \<and> map_of strs ''cuts'' = Some primary
         \<and> check_shard_counts strs (length primary) flds = None
         \<and> a = \<lparr>split_for_dataloading = split, len_memo = None, in_dir = dir,
                 fields_set = flds, streams = strs, num_shards = length primary,
                 shards = (if sh then shuffle e (Random e seed) (unshuffled strs (length primary))
                           else unshuffled strs (length primary)),
                 cut_map_fns = ifnone fns (replicate (length primary) None)\<rparr>
         \<and> h = g"
  using assms
  by (auto simp: construct_def resolved_def unshuffled_def Let_def
           split: option.splits sum.splits prod.splits if_splits)

text \<open>
  Claim C5. Two instances constructed over the same input with shuffling enabled and the
  same seed have the same shard order, whatever the state of the generator shared by the
  process, which construction neither reads nor changes: the order is the shuffle, by a
  generator made from the seed alone, of the unshuffled shard list.
\<close>

theorem same_seed_same_order:
  assumes "construct e g1 fs dir split1 True seed fns1 = (Inr a, h1)"
      and "construct e g2 fs dir split2 True seed fns2 = (Inr b, h2)"
      and "construct e g3 fs dir split3 False seed3 fns3 = (Inr c, h3)"
  shows "shards a = shards b \<and> h1 = g1 \<and> h2 = g2
         \<and> shards a = shuffle e (Random e seed) (shards c)"
proof -
  from construct_Inr [OF assms(1)] construct_Inr [OF assms(2)] construct_Inr [OF assms(3)]
  show ?thesis by auto
qed

text \<open>
  Claim C3. The length of a constructed instance is the sum of the newline counts of the
  primary field's shard locations; it is the same for every setting of the shuffle flag,
  the seed, the split flag and the transforms; and it is stored by the first call, so
  that a second call returns the stored value without counting again, whatever the files
  hold by then.
\<close>

theorem len_is_primary_total:
  assumes "construct e g fs dir split sh seed fns = (Inr a, h)"
      and "construct e g' fs dir split' sh' seed' fns' = (Inr b, h')"
  shows "\<exists>primary.
           map_of (streams a) ''cuts'' = Some primary
         \<and> streams b = streams a
         \<and> fst (len_shar e a) = Inr (sum_list (map (count_newlines_fast e) primary))
         \<and> fst (len_shar e b) = fst (len_shar e a)
         \<and> len_shar e' (snd (len_shar e a)) = (fst (len_shar e a), snd (len_shar e a))"
proof -
  from construct_Inr [OF assms(1)] construct_Inr [OF assms(2)]
  show ?thesis by (auto simp: len_shar_def Let_def)
qed


lemma sample_explicit:
  "construct sample_env g (Some [(''cuts'', [''data/cuts.000000.jsonl'', ''data/cuts.000001.jsonl''])])
     None split sh seed fns
   = (Inr \<lparr>split_for_dataloading = split, len_memo = None, in_dir = None, fields_set = [],
           streams = [(''cuts'', [''data/cuts.000000.jsonl'', ''data/cuts.000001.jsonl''])],
           num_shards = 2,
           shards = (if sh
                     then shuffle sample_env (Random sample_env seed)
                            [[(''cuts'', ''data/cuts.000000.jsonl'')], [(''cuts'', ''data/cuts.000001.jsonl'')]]
                     else [[(''cuts'', ''data/cuts.000000.jsonl'')], [(''cuts'', ''data/cuts.000001.jsonl'')]]),
           cut_map_fns = ifnone fns [None, None]\<rparr>, g)"
  by (simp add: construct_def exactly_one_not_null_def init_from_inputs_def Let_def
        upt_rec numeral_2_eq_2)

theorem same_seed_same_order_witness:
  "\<exists>a b c.
     construct sample_env (1::int)
       (Some [(''cuts'', [''data/cuts.000000.jsonl'', ''data/cuts.000001.jsonl''])])
       None False True 42 (None :: (string cut \<Rightarrow> string cut) option list option)
         = (Inr a, 1)
   \<and> construct sample_env (2::int)
       (Some [(''cuts'', [''data/cuts.000000.jsonl'', ''data/cuts.000001.jsonl''])])
       None True True 42 (Some [Some (mark ''f0''), Some (mark ''f1'')]) = (Inr b, 2)
   \<and> construct sample_env (3::int)
       (Some [(''cuts'', [''data/cuts.000000.jsonl'', ''data/cuts.000001.jsonl''])])
       None False False 7 (None :: (string cut \<Rightarrow> string cut) option list option)
         = (Inr c, 3)
   \<and> shards a = shards b
   \<and> shards a = shuffle sample_env (Random sample_env 42) (shards c)
   \<and> shards a = [[(''cuts'', ''data/cuts.000001.jsonl'')], [(''cuts'', ''data/cuts.000000.jsonl'')]]"
proof -
  obtain a where a: "construct sample_env (1::int)
       (Some [(''cuts'', [''data/cuts.000000.jsonl'', ''data/cuts.000001.jsonl''])])
       None False True 42 (None :: (string cut \<Rightarrow> string cut) option list option)
         = (Inr a, 1)"
    by (simp add: sample_explicit)
  obtain b where b: "construct sample_env (2::int)
       (Some [(''cuts'', [''data/cuts.000000.jsonl'', ''data/cuts.000001.jsonl''])])
       None True True 42 (Some [Some (mark ''f0''), Some (mark ''f1'')]) = (Inr b, 2)"
    by (simp add: sample_explicit)
  obtain c where c: "construct sample_env (3::int)
       (Some [(''cuts'', [''data/cuts.000000.jsonl'', ''data/cuts.000001.jsonl''])])
       None False False 7 (None :: (string cut \<Rightarrow> string cut) option list option)
         = (Inr c, 3)"
    by (simp add: sample_explicit)
  have "shards a = shuffle sample_env (Random sample_env 42)
          [[(''cuts'', ''data/cuts.000000.jsonl'')], [(''cuts'', ''data/cuts.000001.jsonl'')]]"
    using a by (auto simp: sample_explicit)
  then have v: "shards a
      = [[(''cuts'', ''data/cuts.000001.jsonl'')], [(''cuts'', ''data/cuts.000000.jsonl'')]]"
    by (simp add: sample_env_def)
  from same_seed_same_order [OF a b c] a b c v show ?thesis by blast
qed

theorem len_is_primary_total_witness:
  "\<exists>a b.
     construct sample_env (1::int)
       (Some [(''cuts'', [''data/cuts.000000.jsonl'', ''data/cuts.000001.jsonl''])])
       None False False 42 (None :: (string cut \<Rightarrow> string cut) option list option)
         = (Inr a, 1)
   \<and> construct sample_env (2::int)
       (Some [(''cuts'', [''data/cuts.000000.jsonl'', ''data/cuts.000001.jsonl''])])
       None True True 7 (None :: (string cut \<Rightarrow> string cut) option list option)
         = (Inr b, 2)
   \<and> fst (len_shar sample_env a) = Inr 3
   \<and> fst (len_shar sample_env b) = fst (len_shar sample_env a)
   \<and> len_shar (sample_env\<lparr>count_newlines_fast := (\<lambda>p. 0)\<rparr>) (snd (len_shar sample_env a))
       = (fst (len_shar sample_env a), snd (len_shar sample_env a))"
proof -
  obtain a where a: "construct sample_env (1::int)
       (Some [(''cuts'', [''data/cuts.000000.jsonl'', ''data/cuts.000001.jsonl''])])
       None False False 42 (None :: (string cut \<Rightarrow> string cut) option list option)
         = (Inr a, 1)"
    by (simp add: sample_explicit)
  obtain b where b: "construct sample_env (2::int)
       (Some [(''cuts'', [''data/cuts.000000.jsonl'', ''data/cuts.000001.jsonl''])])
       None True True 7 (None :: (string cut \<Rightarrow> string cut) option list option)
         = (Inr b, 2)"
    by (simp add: sample_explicit)
  have "len_memo a = None
        \<and> streams a = [(''cuts'', [''data/cuts.000000.jsonl'', ''data/cuts.000001.jsonl''])]"
    using a by (auto simp: sample_explicit)
  then have v: "fst (len_shar sample_env a) = Inr 3"
    by (simp add: len_shar_def sample_env_def)
  from len_is_primary_total [OF a b, of "sample_env\<lparr>count_newlines_fast := (\<lambda>p. 0)\<rparr>"] a b v
  show ?thesis by blast
qed

section \<open>Properties of the merge\<close>

lemma sample_tar:
  "open_field sample_env ''recording'' ''bad/recording.000000.tar''
     = [Inr (Some ''A'', ''a.flac''), Inr (Some ''B'', ''c.bin'')]"
  "open_field sample_env ''recording'' ''gap/recording.000000.tar''
     = [Inr (Some ''A'', ''a.flac''), Inr (None, ''c.bin'')]"
  "open_field sample_env ''recording'' ''short/recording.000000.tar''
     = [Inr (Some ''A'', ''a.flac'')]"
  by (simp_all add: open_field_def extension_contains_def suffixes_def name_suffixes_def
        path_name_def path_components_def Let_def sample_env_def)

lemma sample_stems:
  "stem ''a.flac'' = ''a''" "stem ''b.flac'' = ''b''" "stem ''c.flac'' = ''c''"
  "stem ''c.bin'' = ''c''"
  by (simp_all add: stem_def path_name_def path_components_def rfind_def Let_def)

lemma sample_manifest:
  "LazyManifestIterator sample_env ''data/cuts.000000.jsonl'' = [sample_cut ''a'', sample_cut ''b'']"
  "LazyManifestIterator sample_env ''data/cuts.000001.jsonl'' = [sample_cut ''c'']"
  by (simp_all add: sample_env_def)

lemma left_after_False: "left_after n False iters = map (drop n) iters"
  by (induction iters) auto

lemma next_fields_complete:
  "\<not> list_ex (\<lambda>it. it = []) iters \<Longrightarrow> list_all (\<lambda>it. \<not> isl (hd it)) iters \<Longrightarrow>
   next_fields iters = (Got (map (\<lambda>it. projr (hd it)) iters), map tl iters)"
  by (induction iters rule: next_fields.induct) auto

lemma next_fields_exhausted:
  "list_ex (\<lambda>it. it = []) iters \<Longrightarrow>
   list_all (\<lambda>it. \<not> isl (hd it)) (takeWhile (\<lambda>it. it \<noteq> []) iters) \<Longrightarrow>
   next_fields iters = (Exhausted, left_after 0 True iters)"
  by (induction iters rule: next_fields.induct) (auto simp: left_after_False)

lemma attach_fields_ok:
  "list_all (\<lambda>x. item_ok c (Inr x)) items \<Longrightarrow>
   \<exists>c'. attach_fields c (zip names items) = Inr c' \<and> id_cut c' = id_cut c"
proof (induction items arbitrary: c names)
  case Nil
  then show ?case by simp
next
  case (Cons x items)
  obtain v p where x: "x = (v, p)" by (cases x)
  show ?case
  proof (cases names)
    case Nil
    then show ?thesis by simp
  next
    case (Cons f fs)
    show ?thesis
    proof (cases v)
      case None
      with Cons.prems Cons.IH [of c fs] x Cons show ?thesis by simp
    next
      case (Some m)
      have "list_all (\<lambda>y. item_ok (setattr c f m) (Inr y)) items"
        using Cons.prems
        by (auto simp: list_all_iff setattr_def elim!: item_ok.elims)
      from Cons.IH [OF this, of fs] Cons.prems x Some Cons show ?thesis
        by (auto simp: setattr_def)
    qed
  qed
qed

lemma item_ok_hd:
  "item_ok c (hd it) \<Longrightarrow> item_ok c (Inr (projr (hd it))) \<and> \<not> isl (hd it)"
  by (cases "hd it") auto

lemma shortest_empty: "list_ex (\<lambda>it. it = []) iters \<Longrightarrow> shortest n iters = 0"
  by (induction iters) (auto simp: shortest_def)

lemma shortest_Suc:
  "\<not> list_ex (\<lambda>it. it = []) iters \<Longrightarrow> shortest (Suc n) iters = Suc (shortest n (map tl iters))"
proof (induction iters)
  case Nil
  then show ?case by (simp add: shortest_def)
next
  case (Cons a iters)
  then have "a \<noteq> []" by auto
  then obtain x xs where "a = x # xs" by (cases a) auto
  with Cons show ?case by (simp add: shortest_def)
qed

lemma shortest_le: "shortest n iters \<le> n"
  by (induction iters) (auto simp: shortest_def)

lemma left_after_tl:
  "\<not> list_ex (\<lambda>it. it = []) iters \<Longrightarrow>
   left_after n go (map tl iters) = left_after (Suc n) go iters"
  by (induction iters arbitrary: go) (auto simp: drop_Suc)

text \<open>
  Claim C6, as amended. When the streams of a shard are aligned, the merge yields as many
  records as the shortest stream has items and ends without an exception. Every complete
  round takes one item from the primary stream and from each field stream. The round
  that meets the first exhausted stream has by then taken one more item from the primary
  stream and from each field stream before the exhausted one, and these are dropped;
  the streams after the exhausted one are not read in that round.
\<close>

theorem merge_stops_at_shortest:
  "aligned cuts iters \<Longrightarrow>
   length (yielded (merge_shard origin fn names cuts iters)) = shortest (length cuts) iters
   \<and> raised (merge_shard origin fn names cuts iters) = None
   \<and> cuts_left (merge_shard origin fn names cuts iters)
       = drop (Suc (shortest (length cuts) iters)) cuts
   \<and> fields_left (merge_shard origin fn names cuts iters)
       = left_after (shortest (length cuts) iters)
           (shortest (length cuts) iters < length cuts) iters"
proof (induction cuts arbitrary: iters)
  case Nil
  have "shortest 0 iters = 0" using shortest_le [of 0 iters] by simp
  then show ?case by (simp add: left_after_False)
next
  case (Cons c cuts)
  show ?case
  proof (cases "list_ex (\<lambda>it. it = []) iters")
    case True
    with Cons.prems have "next_fields iters = (Exhausted, left_after 0 True iters)"
      by (simp add: next_fields_exhausted)
    with True show ?thesis by (simp add: shortest_empty)
  next
    case False
    with Cons.prems have ok: "list_all (\<lambda>it. item_ok c (hd it)) iters"
      and al: "aligned cuts (map tl iters)" by simp_all
    from ok have nr: "list_all (\<lambda>it. \<not> isl (hd it)) iters"
      and it: "list_all (\<lambda>x. item_ok c (Inr x)) (map (\<lambda>it. projr (hd it)) iters)"
      using item_ok_hd by (auto simp: list_all_iff)
    from next_fields_complete [OF False nr]
    have nf: "next_fields iters = (Got (map (\<lambda>it. projr (hd it)) iters), map tl iters)" .
    from attach_fields_ok [OF it, of names] obtain c' where
      at: "attach_fields c (zip names (map (\<lambda>it. projr (hd it)) iters)) = Inr c'" by blast
    from Cons.IH [OF al] nf at False show ?thesis
      by (simp add: Let_def shortest_Suc left_after_tl)
  qed
qed

lemma merge_no_fields:
  "merge_shard origin fn [] cuts []
   = \<lparr>yielded = map (\<lambda>c. apply_cut_map_fn fn (c\<lparr>shard_origin := Some origin\<rparr>)) cuts,
      raised = None, cuts_left = [], fields_left = []\<rparr>"
  by (induction cuts) (simp_all add: Let_def)


theorem merge_stops_at_shortest_witness:
  "aligned [sample_cut ''a'', sample_cut ''b'', sample_cut ''c'']
     [[Inr (Some ''A1'', ''a.flac''), Inr (Some ''A2'', ''b.flac'')],
      [Inr (Some ''B1'', ''a.flac'')],
      [Inr (Some ''C1'', ''a.flac''), Inr (Some ''C2'', ''b.flac'')]]
   \<and> length (yielded (merge_shard ''o'' None [''f'', ''g'', ''h'']
        [sample_cut ''a'', sample_cut ''b'', sample_cut ''c'']
        [[Inr (Some ''A1'', ''a.flac''), Inr (Some ''A2'', ''b.flac'')],
         [Inr (Some ''B1'', ''a.flac'')],
         [Inr (Some ''C1'', ''a.flac''), Inr (Some ''C2'', ''b.flac'')]])) = 1
   \<and> raised (merge_shard ''o'' None [''f'', ''g'', ''h'']
        [sample_cut ''a'', sample_cut ''b'', sample_cut ''c'']
        [[Inr (Some ''A1'', ''a.flac''), Inr (Some ''A2'', ''b.flac'')],
         [Inr (Some ''B1'', ''a.flac'')],
         [Inr (Some ''C1'', ''a.flac''), Inr (Some ''C2'', ''b.flac'')]]) = None
   \<and> cuts_left (merge_shard ''o'' None [''f'', ''g'', ''h'']
        [sample_cut ''a'', sample_cut ''b'', sample_cut ''c'']
        [[Inr (Some ''A1'', ''a.flac''), Inr (Some ''A2'', ''b.flac'')],
         [Inr (Some ''B1'', ''a.flac'')],
         [Inr (Some ''C1'', ''a.flac''), Inr (Some ''C2'', ''b.flac'')]]) = [sample_cut ''c'']
   \<and> fields_left (merge_shard ''o'' None [''f'', ''g'', ''h'']
        [sample_cut ''a'', sample_cut ''b'', sample_cut ''c'']
        [[Inr (Some ''A1'', ''a.flac''), Inr (Some ''A2'', ''b.flac'')],
         [Inr (Some ''B1'', ''a.flac'')],
         [Inr (Some ''C1'', ''a.flac''), Inr (Some ''C2'', ''b.flac'')]])
       = [[], [], [Inr (Some ''C2'', ''b.flac'')]]"
proof -
  have h: "aligned [sample_cut ''a'', sample_cut ''b'', sample_cut ''c'']
     [[Inr (Some ''A1'', ''a.flac''), Inr (Some ''A2'', ''b.flac'')],
      [Inr (Some ''B1'', ''a.flac'')],
      [Inr (Some ''C1'', ''a.flac''), Inr (Some ''C2'', ''b.flac'')]]"
    by (simp add: sample_stems sample_cut_def)
  have n: "shortest (length [sample_cut ''a'', sample_cut ''b'', sample_cut ''c''])
     [[Inr (Some ''A1'', ''a.flac''), Inr (Some ''A2'', ''b.flac'')],
      [Inr (Some ''B1'', ''a.flac'')],
      [Inr (Some ''C1'', ''a.flac''), Inr (Some ''C2'', ''b.flac'')]] = 1"
    by (simp add: shortest_def)
  from merge_stops_at_shortest [OF h, of "''o''" None "[''f'', ''g'', ''h'']"] h
  show ?thesis unfolding n by simp
qed

text \<open>
  Claim C6 as stated fails on the primary stream: with two records in the manifest and
  one item in the archive, one record is yielded and both records have been read.
\<close>

theorem merge_reads_primary_further_counterexample:
  "length (yielded (iter_shard sample_env
      [(''cuts'', ''data/cuts.000000.jsonl''), (''recording'', ''short/recording.000000.tar'')]
      None)) = 1
   \<and> raised (iter_shard sample_env
      [(''cuts'', ''data/cuts.000000.jsonl''), (''recording'', ''short/recording.000000.tar'')]
      None) = None
   \<and> length (LazyManifestIterator sample_env ''data/cuts.000000.jsonl'')
     - length (cuts_left (iter_shard sample_env
      [(''cuts'', ''data/cuts.000000.jsonl''), (''recording'', ''short/recording.000000.tar'')]
      None)) = 2"
  by (simp add: iter_shard_def sample_tar sample_manifest sample_stems Let_def sample_cut_def)

text \<open>
  Claim C2, as amended. For a shard with one non-primary field whose manifest yields the
  records \<open>a\<close> and \<open>b\<close>, whose first field item is a placeholder or is named after
  \<open>a\<close>, and whose second field item carries a value under a name whose stem is not
  the id of \<open>b\<close>: iteration yields the first record, complete, then raises the
  synchronization fault at the second record; it yields nothing for the second record
  and visits no later shard.
\<close>

theorem sync_fault_on_second_record:
  assumes "map_of shard ''cuts'' = Some origin"
      and "filter (\<lambda>(field, path). field \<noteq> ''cuts'') shard = [(field, path)]"
      and "LazyManifestIterator e origin = [a, b]"
      and "open_field e field path = Inr (v1, p1) # Inr (Some v2, p2) # later"
      and "v1 = None \<or> stem p1 = id_cut a"
      and "stem p2 \<noteq> id_cut b"
  shows "iter_shards e ((shard, cut_map_fn) # rest)
         = ([apply_cut_map_fn cut_map_fn
               ((case v1 of None \<Rightarrow> a | Some v \<Rightarrow> setattr a field v)
                  \<lparr>shard_origin := Some origin\<rparr>)],
            Some (MismatchedIDs (id_cut b) p2))"
  using assms
  by (cases v1) (auto simp: iter_shard_def Let_def)

theorem sync_fault_on_second_record_witness:
  "iter_shards sample_env
     (([(''cuts'', ''data/cuts.000000.jsonl''), (''recording'', ''bad/recording.000000.tar'')],
       None)
      # [([(''cuts'', ''data/cuts.000001.jsonl'')], None)])
   = ([\<lparr>id_cut = ''a'', attached = [''recording'' \<mapsto> ''A''],
        shard_origin = Some ''data/cuts.000000.jsonl''\<rparr>],
      Some (MismatchedIDs ''b'' ''c.bin''))"
proof -
  have "iter_shards sample_env
     (([(''cuts'', ''data/cuts.000000.jsonl''), (''recording'', ''bad/recording.000000.tar'')],
       None)
      # [([(''cuts'', ''data/cuts.000001.jsonl'')], None)])
    = ([apply_cut_map_fn None
               ((case Some ''A'' of None \<Rightarrow> sample_cut ''a''
                 | Some v \<Rightarrow> setattr (sample_cut ''a'') ''recording'' v)
                  \<lparr>shard_origin := Some ''data/cuts.000000.jsonl''\<rparr>)],
            Some (MismatchedIDs (id_cut (sample_cut ''b'')) ''c.bin''))"
  proof (rule sync_fault_on_second_record)
    show "map_of [(''cuts'', ''data/cuts.000000.jsonl''),
                  (''recording'', ''bad/recording.000000.tar'')] ''cuts''
          = Some ''data/cuts.000000.jsonl''"
      by simp
    show "filter (\<lambda>(field, path). field \<noteq> ''cuts'')
            [(''cuts'', ''data/cuts.000000.jsonl''), (''recording'', ''bad/recording.000000.tar'')]
          = [(''recording'', ''bad/recording.000000.tar'')]"
      by simp
    show "LazyManifestIterator sample_env ''data/cuts.000000.jsonl''
          = [sample_cut ''a'', sample_cut ''b'']"
      by (rule sample_manifest)
    show "open_field sample_env ''recording'' ''bad/recording.000000.tar''
          = Inr (Some ''A'', ''a.flac'') # Inr (Some ''B'', ''c.bin'') # []"
      by (rule sample_tar)
    show "Some ''A'' = None \<or> stem ''a.flac'' = id_cut (sample_cut ''a'')"
      by (simp add: sample_stems sample_cut_def)
    show "stem ''c.bin'' \<noteq> id_cut (sample_cut ''b'')"
      by (simp add: sample_stems sample_cut_def)
  qed
  then show ?thesis
    by (simp add: apply_cut_map_fn_def setattr_def sample_cut_def)
qed

text \<open>
  Claim C2 as stated fails when the second item is a placeholder: its name \<^verbatim>\<open>c.bin\<close>
  is not checked against the record \<^verbatim>\<open>b\<close>, both records are yielded and no fault
  is raised.
\<close>

theorem placeholder_not_checked_counterexample:
  "open_field sample_env ''recording'' ''gap/recording.000000.tar''
     = [Inr (Some ''A'', ''a.flac''), Inr (None, ''c.bin'')]
   \<and> stem ''c.bin'' = ''c''
   \<and> map id_cut (LazyManifestIterator sample_env ''data/cuts.000000.jsonl'') = [''a'', ''b'']
   \<and> snd (iter_shards sample_env
       [([(''cuts'', ''data/cuts.000000.jsonl''), (''recording'', ''gap/recording.000000.tar'')],
         None)]) = None
   \<and> map id_cut (fst (iter_shards sample_env
       [([(''cuts'', ''data/cuts.000000.jsonl''), (''recording'', ''gap/recording.000000.tar'')],
         None)])) = [''a'', ''b'']"
  by (simp add: iter_shard_def sample_tar sample_manifest sample_stems Let_def sample_cut_def
        apply_cut_map_fn_def setattr_def)

lemma sample_shuffle_42:
  "shuffle sample_env (Random sample_env 42) [x, y] = [y, x]"
  by (simp add: sample_env_def)

text \<open>
  Claim C1, evaluated on the code. With two shards, the transforms \<^verbatim>\<open>[f0, f1]\<close>, shuffling
  enabled and the seed 42 (for which the shuffle exchanges the two shards), the records
  of the second shard go through \<^verbatim>\<open>f0\<close> and the records of the first shard through
  \<^verbatim>\<open>f1\<close>: the transforms are paired with the shards by position after the shuffle.
\<close>

theorem transforms_follow_position_after_shuffle:
  "\<exists>inst.
     construct sample_env (0::int)
       (Some [(''cuts'', [''data/cuts.000000.jsonl'', ''data/cuts.000001.jsonl''])])
       None False True 42 (Some [Some (mark ''f0''), Some (mark ''f1'')]) = (Inr inst, 0)
   \<and> snd (fst (iter_shar sample_env inst)) = None
   \<and> map (\<lambda>c. (id_cut c, shard_origin c, attached c ''marker''))
         (fst (fst (iter_shar sample_env inst)))
       = [(''c'', Some ''data/cuts.000001.jsonl'', Some ''f0''),
          (''a'', Some ''data/cuts.000000.jsonl'', Some ''f1''),
          (''b'', Some ''data/cuts.000000.jsonl'', Some ''f1'')]"
  by (simp add: sample_explicit sample_shuffle_42 sample_manifest ifnone_def iter_shar_def
        iter_shard_def Let_def apply_cut_map_fn_def mark_def setattr_def sample_cut_def)

section \<open>Properties of a source with the primary field only\<close>

lemma unshuffled_primary_only:
  "unshuffled [(''cuts'', locs)] (length locs) = map (\<lambda>l. [(''cuts'', l)]) locs"
proof -
  have "map (\<lambda>l. [(''cuts'', l)]) (map ((!) locs) [0..<length locs])
        = map (\<lambda>l. [(''cuts'', l)]) locs"
    by (simp only: map_nth)
  then show ?thesis
    by (simp add: unshuffled_def comp_def)
qed

lemma iter_shard_primary_only:
  "iter_shard e [(''cuts'', l)] fn
   = \<lparr>yielded = map (\<lambda>c. apply_cut_map_fn fn (c\<lparr>shard_origin := Some l\<rparr>))
                  (LazyManifestIterator e l),
      raised = None, cuts_left = [], fields_left = []\<rparr>"
  by (simp add: iter_shard_def merge_no_fields)

lemma iter_shards_primary_only:
  "list_all (\<lambda>(s, fn). s = [(''cuts'', origin_of s)]) sfs \<Longrightarrow>
   iter_shards e sfs
   = (concat (map (\<lambda>(s, fn). map (\<lambda>c. apply_cut_map_fn fn (c\<lparr>shard_origin := Some (origin_of s)\<rparr>))
                                  (LazyManifestIterator e (origin_of s))) sfs),
      None)"
proof (induction sfs)
  case Nil
  then show ?case by simp
next
  case (Cons x sfs)
  obtain s fn where x: "x = (s, fn)" by (cases x)
  with Cons.prems have s: "s = [(''cuts'', origin_of s)]" by simp
  have "iter_shard e s fn
     = \<lparr>yielded = map (\<lambda>c. apply_cut_map_fn fn (c\<lparr>shard_origin := Some (origin_of s)\<rparr>))
                    (LazyManifestIterator e (origin_of s)),
        raised = None, cuts_left = [], fields_left = []\<rparr>"
    by (subst s) (rule iter_shard_primary_only)
  with Cons x show ?case by (simp add: Let_def)
qed

lemma map2_replicate:
  "length xs = n \<Longrightarrow> map2 f xs (replicate n y) = map (\<lambda>x. f x y) xs"
  by (induction xs arbitrary: n) auto

text \<open>
  Claim C10, as amended. For an instance constructed from an explicit mapping whose
  only key is \<^verbatim>\<open>cuts\<close>, with splitting disabled, and with either no transforms, or
  shuffling disabled and one transform per shard, where the shuffle permutes its input:
  iteration visits every shard once (in the order given, when shuffling is off) and
  never raises; every record of every shard, in manifest order, is stamped with its
  shard origin, with its attached values as the manifest gave them. Without transforms
  the stamped records are what is yielded. With transforms, the records of the shard at
  an index of the input go through the transform at that index, and what is yielded is
  the transform's result. Which transform a record meets when the shards are shuffled
  is left out here.
\<close>

theorem primary_only_iteration:
  assumes "construct e g (Some [(''cuts'', locs)]) None False sh seed fns = (Inr a, h)"
      and "sh \<Longrightarrow> mset (shuffle e (Random e seed) (map (\<lambda>l. [(''cuts'', l)]) locs))
                    = mset (map (\<lambda>l. [(''cuts'', l)]) locs)"
      and "case fns of None \<Rightarrow> True | Some fs \<Rightarrow> \<not> sh \<and> length fs = length locs"
  shows "mset (map origin_of (shards a)) = mset locs
       \<and> (if sh then True else map origin_of (shards a) = locs)
       \<and> fst (iter_shar e a)
          = (case fns of
               None \<Rightarrow>
                 (concat (map (\<lambda>l. map (\<lambda>c. c\<lparr>shard_origin := Some l\<rparr>)
                                       (LazyManifestIterator e l))
                            (map origin_of (shards a))),
                  None)
             | Some fs \<Rightarrow>
                 (concat (map2 (\<lambda>l fn. map (\<lambda>c. apply_cut_map_fn fn
                                                     (c\<lparr>shard_origin := Some l\<rparr>))
                                            (LazyManifestIterator e l))
                            locs fs),
                  None))"
proof -
  let ?base = "map (\<lambda>l. [(''cuts'', l)]) locs"
  from construct_Inr [OF assms(1)] obtain flds strs primary where
    r: "resolved e (Some [(''cuts'', locs)]) None = Inr (flds, strs)"
    and p: "map_of strs ''cuts'' = Some primary"
    and a: "a = \<lparr>split_for_dataloading = False, len_memo = None, in_dir = None,
                 fields_set = flds, streams = strs, num_shards = length primary,
                 shards = (if sh then shuffle e (Random e seed) (unshuffled strs (length primary))
                           else unshuffled strs (length primary)),
                 cut_map_fns = ifnone fns (replicate (length primary) None)\<rparr>"
    by blast
  from r have strs: "strs = [(''cuts'', locs)]"
    by (simp add: resolved_def init_from_inputs_def)
  with p have primary: "primary = locs" by simp
  have sp: "split_for_dataloading a = False"
    and sh: "shards a = (if sh then shuffle e (Random e seed) ?base else ?base)"
    and fn: "cut_map_fns a = ifnone fns (replicate (length locs) None)"
    by (simp_all add: a strs primary unshuffled_primary_only)
  from sh assms(2) have ms: "mset (shards a) = mset ?base" by (cases sh) simp_all
  have og: "map origin_of ?base = locs"
    by (simp add: origin_of_def comp_def)
  from arg_cong [OF ms, of "image_mset origin_of"]
  have "mset (map origin_of (shards a)) = mset (map origin_of ?base)"
    by (simp only: mset_map)
  with og have c1: "mset (map origin_of (shards a)) = mset locs" by simp
  from sh og have c2: "if sh then True else map origin_of (shards a) = locs" by simp
  from ms have len: "length (shards a) = length ?base" by (rule mset_eq_length)
  from ms have "set (shards a) = set ?base" by (rule mset_eq_setD)
  then have "\<forall>s \<in> set (shards a). s = [(''cuts'', origin_of s)]"
    by (auto simp: origin_of_def)
  then have "list_all (\<lambda>(s, fn). s = [(''cuts'', origin_of s)]) (zip (shards a) (cut_map_fns a))"
    by (auto simp: list_all_iff dest: set_zip_leftD)
  from iter_shards_primary_only [OF this, of e] sp
  have it: "fst (iter_shar e a)
          = (concat (map2 (\<lambda>l fn. map (\<lambda>c. apply_cut_map_fn fn (c\<lparr>shard_origin := Some l\<rparr>))
                                     (LazyManifestIterator e l))
                       (map origin_of (shards a)) (cut_map_fns a)),
             None)"
    by (simp add: iter_shar_def zip_map1 case_prod_unfold comp_def)
  have c3: "fst (iter_shar e a)
          = (case fns of
               None \<Rightarrow>
                 (concat (map (\<lambda>l. map (\<lambda>c. c\<lparr>shard_origin := Some l\<rparr>)
                                       (LazyManifestIterator e l))
                            (map origin_of (shards a))),
                  None)
             | Some fs \<Rightarrow>
                 (concat (map2 (\<lambda>l fn. map (\<lambda>c. apply_cut_map_fn fn
                                                     (c\<lparr>shard_origin := Some l\<rparr>))
                                            (LazyManifestIterator e l))
                            locs fs),
                  None))"
  proof (cases fns)
    case None
    with fn have f: "cut_map_fns a = replicate (length locs) None"
      by (simp add: ifnone_def)
    from len have l: "length (map origin_of (shards a)) = length locs" by simp
    have "map2 (\<lambda>l fn. map (\<lambda>c. apply_cut_map_fn fn (c\<lparr>shard_origin := Some l\<rparr>))
                           (LazyManifestIterator e l))
            (map origin_of (shards a)) (replicate (length locs) None)
        = map (\<lambda>l. map (\<lambda>c. apply_cut_map_fn None (c\<lparr>shard_origin := Some l\<rparr>))
                        (LazyManifestIterator e l))
            (map origin_of (shards a))"
      using l by (rule map2_replicate)
    then show ?thesis unfolding it f None
      by (simp add: apply_cut_map_fn_def)
  next
    case (Some fs)
    with assms(3) have "\<not> sh" by simp
    with c2 have o: "map origin_of (shards a) = locs" by simp
    from Some fn have f: "cut_map_fns a = fs" by (simp add: ifnone_def)
    show ?thesis unfolding it f o Some by simp
  qed
  from c1 c2 c3 show ?thesis by blast
qed

theorem primary_only_iteration_witness:
  "(\<exists>a. construct sample_env (0::int)
         (Some [(''cuts'', [''data/cuts.000000.jsonl'', ''data/cuts.000001.jsonl''])])
         None False False 42 (Some [Some (mark ''f0''), Some (mark ''f1'')])
         = (Inr a, 0)
     \<and> length [Some (mark ''f0''), Some (mark ''f1'')]
       = length [''data/cuts.000000.jsonl'', ''data/cuts.000001.jsonl'']
     \<and> fst (iter_shar sample_env a)
       = ([\<lparr>id_cut = ''a'', attached = [''marker'' \<mapsto> ''f0''],
            shard_origin = Some ''data/cuts.000000.jsonl''\<rparr>,
           \<lparr>id_cut = ''b'', attached = [''marker'' \<mapsto> ''f0''],
            shard_origin = Some ''data/cuts.000000.jsonl''\<rparr>,
           \<lparr>id_cut = ''c'', attached = [''marker'' \<mapsto> ''f1''],
            shard_origin = Some ''data/cuts.000001.jsonl''\<rparr>],
          None))
   \<and> (\<exists>a. construct sample_env (0::int)
         (Some [(''cuts'', [''data/cuts.000000.jsonl'', ''data/cuts.000001.jsonl''])])
         None False True 42 (None :: (string cut \<Rightarrow> string cut) option list option)
         = (Inr a, 0)
     \<and> mset (shuffle sample_env (Random sample_env 42)
              (map (\<lambda>l. [(''cuts'', l)]) [''data/cuts.000000.jsonl'', ''data/cuts.000001.jsonl'']))
       = mset (map (\<lambda>l. [(''cuts'', l)]) [''data/cuts.000000.jsonl'', ''data/cuts.000001.jsonl''])
     \<and> fst (iter_shar sample_env a)
       = ([\<lparr>id_cut = ''c'', attached = Map.empty, shard_origin = Some ''data/cuts.000001.jsonl''\<rparr>,
           \<lparr>id_cut = ''a'', attached = Map.empty, shard_origin = Some ''data/cuts.000000.jsonl''\<rparr>,
           \<lparr>id_cut = ''b'', attached = Map.empty, shard_origin = Some ''data/cuts.000000.jsonl''\<rparr>],
          None))"
proof -
  obtain a where a: "construct sample_env (0::int)
         (Some [(''cuts'', [''data/cuts.000000.jsonl'', ''data/cuts.000001.jsonl''])])
         None False False 42 (Some [Some (mark ''f0''), Some (mark ''f1'')])
         = (Inr a, 0)"
    by (simp add: sample_explicit)
  have p: "False \<Longrightarrow> mset (shuffle sample_env (Random sample_env 42)
              (map (\<lambda>l. [(''cuts'', l)]) [''data/cuts.000000.jsonl'', ''data/cuts.000001.jsonl'']))
       = mset (map (\<lambda>l. [(''cuts'', l)]) [''data/cuts.000000.jsonl'', ''data/cuts.000001.jsonl''])"
    by simp
  have l: "case Some [Some (mark ''f0''), Some (mark ''f1'')] of None \<Rightarrow> True
           | Some fs \<Rightarrow> \<not> False
               \<and> length fs = length [''data/cuts.000000.jsonl'', ''data/cuts.000001.jsonl'']"
    by simp
  from primary_only_iteration [OF a p l]
  have "fst (iter_shar sample_env a)
       = ([\<lparr>id_cut = ''a'', attached = [''marker'' \<mapsto> ''f0''],
            shard_origin = Some ''data/cuts.000000.jsonl''\<rparr>,
           \<lparr>id_cut = ''b'', attached = [''marker'' \<mapsto> ''f0''],
            shard_origin = Some ''data/cuts.000000.jsonl''\<rparr>,
           \<lparr>id_cut = ''c'', attached = [''marker'' \<mapsto> ''f1''],
            shard_origin = Some ''data/cuts.000001.jsonl''\<rparr>],
          None)"
    by (simp add: sample_manifest apply_cut_map_fn_def sample_cut_def mark_def setattr_def)
  with a have first: "\<exists>a. construct sample_env (0::int)
         (Some [(''cuts'', [''data/cuts.000000.jsonl'', ''data/cuts.000001.jsonl''])])
         None False False 42 (Some [Some (mark ''f0''), Some (mark ''f1'')])
         = (Inr a, 0)
     \<and> length [Some (mark ''f0''), Some (mark ''f1'')]
       = length [''data/cuts.000000.jsonl'', ''data/cuts.000001.jsonl'']
     \<and> fst (iter_shar sample_env a)
       = ([\<lparr>id_cut = ''a'', attached = [''marker'' \<mapsto> ''f0''],
            shard_origin = Some ''data/cuts.000000.jsonl''\<rparr>,
           \<lparr>id_cut = ''b'', attached = [''marker'' \<mapsto> ''f0''],
            shard_origin = Some ''data/cuts.000000.jsonl''\<rparr>,
           \<lparr>id_cut = ''c'', attached = [''marker'' \<mapsto> ''f1''],
            shard_origin = Some ''data/cuts.000001.jsonl''\<rparr>],
          None)"
    by simp
  obtain b where b: "construct sample_env (0::int)
         (Some [(''cuts'', [''data/cuts.000000.jsonl'', ''data/cuts.000001.jsonl''])])
         None False True 42 (None :: (string cut \<Rightarrow> string cut) option list option)
         = (Inr b, 0)"
    by (simp add: sample_explicit)
  have q: "mset (shuffle sample_env (Random sample_env 42)
              (map (\<lambda>l. [(''cuts'', l)]) [''data/cuts.000000.jsonl'', ''data/cuts.000001.jsonl'']))
       = mset (map (\<lambda>l. [(''cuts'', l)]) [''data/cuts.000000.jsonl'', ''data/cuts.000001.jsonl''])"
    by (simp add: sample_shuffle_42)
  have m: "case None :: (string cut \<Rightarrow> string cut) option list option of None \<Rightarrow> True
           | Some fs \<Rightarrow> \<not> True
               \<and> length fs = length [''data/cuts.000000.jsonl'', ''data/cuts.000001.jsonl'']"
    by simp
  have s: "shards b = [[(''cuts'', ''data/cuts.000001.jsonl'')], [(''cuts'', ''data/cuts.000000.jsonl'')]]"
    using b by (auto simp: sample_explicit sample_shuffle_42)
  from primary_only_iteration [OF b q m]
  have i: "fst (iter_shar sample_env b)
          = (concat (map (\<lambda>l. map (\<lambda>c. c\<lparr>shard_origin := Some l\<rparr>)
                                  (LazyManifestIterator sample_env l))
                       (map origin_of (shards b))),
             None)"
    by simp
  have "fst (iter_shar sample_env b)
       = ([\<lparr>id_cut = ''c'', attached = Map.empty, shard_origin = Some ''data/cuts.000001.jsonl''\<rparr>,
           \<lparr>id_cut = ''a'', attached = Map.empty, shard_origin = Some ''data/cuts.000000.jsonl''\<rparr>,
           \<lparr>id_cut = ''b'', attached = Map.empty, shard_origin = Some ''data/cuts.000000.jsonl''\<rparr>],
          None)"
    unfolding i s
    by (simp add: origin_of_def sample_manifest sample_cut_def)
  with b q have second: "\<exists>a. construct sample_env (0::int)
         (Some [(''cuts'', [''data/cuts.000000.jsonl'', ''data/cuts.000001.jsonl''])])
         None False True 42 (None :: (string cut \<Rightarrow> string cut) option list option)
         = (Inr a, 0)
     \<and> mset (shuffle sample_env (Random sample_env 42)
              (map (\<lambda>l. [(''cuts'', l)]) [''data/cuts.000000.jsonl'', ''data/cuts.000001.jsonl'']))
       = mset (map (\<lambda>l. [(''cuts'', l)]) [''data/cuts.000000.jsonl'', ''data/cuts.000001.jsonl''])
     \<and> fst (iter_shar sample_env a)
       = ([\<lparr>id_cut = ''c'', attached = Map.empty, shard_origin = Some ''data/cuts.000001.jsonl''\<rparr>,
           \<lparr>id_cut = ''a'', attached = Map.empty, shard_origin = Some ''data/cuts.000000.jsonl''\<rparr>,
           \<lparr>id_cut = ''b'', attached = Map.empty, shard_origin = Some ''data/cuts.000000.jsonl''\<rparr>],
          None)"
    by blast
  from first second show ?thesis by (rule conjI)
qed

text \<open>
  Claim C10 as stated fails when a transform is configured: the records of the first
  shard go through a transform that hands them back without the stamp, and are yielded
  without it.
\<close>

theorem transform_drops_stamp_counterexample:
  "\<not> isl (fst (construct sample_env (0::int)
         (Some [(''cuts'', [''data/cuts.000000.jsonl'', ''data/cuts.000001.jsonl''])])
         None False False 42 (Some [Some unstamp, None])))
   \<and> map shard_origin (fst (fst (iter_shar sample_env
        (projr (fst (construct sample_env (0::int)
           (Some [(''cuts'', [''data/cuts.000000.jsonl'', ''data/cuts.000001.jsonl''])])
           None False False 42 (Some [Some unstamp, None])))))))
     = [None, None, Some ''data/cuts.000001.jsonl'']"
  by (simp add: sample_explicit sample_manifest ifnone_def iter_shar_def
        iter_shard_def Let_def apply_cut_map_fn_def unstamp_def sample_cut_def)

section \<open>Properties of the shard resolver\<close>

lemma hd_split_on: "hd (split_on c s) = takeWhile (\<lambda>x. x \<noteq> c) s"
  by (induction s) (auto split: list.splits simp: split_on_not_Nil)

lemma takeWhile_take_at:
  "i < length s \<Longrightarrow> s ! i = c \<Longrightarrow>
   takeWhile (\<lambda>x. x \<noteq> c) (take i s) = takeWhile (\<lambda>x. x \<noteq> c) s"
proof (induction s arbitrary: i)
  case Nil
  then show ?case by simp
next
  case (Cons a s)
  then show ?case by (cases i) auto
qed

lemma takeWhile_stops:
  "c \<in> set xs \<Longrightarrow> length (takeWhile (\<lambda>x. x \<noteq> c) xs) < length xs"
  by (induction xs) auto

lemma rfind_index:
  assumes "c \<in> set s"
  shows "0 \<le> rfind c s \<and> nat (rfind c s) < length s \<and> s ! nat (rfind c s) = c"
proof -
  define k where "k = length (takeWhile (\<lambda>x. x \<noteq> c) (rev s))"
  define j where "j = length s - Suc k"
  from assms have k: "k < length (rev s)"
    unfolding k_def by (intro takeWhile_stops) simp
  then have "\<not> (rev s ! k \<noteq> c)"
    unfolding k_def by (rule nth_length_takeWhile)
  with k have at: "s ! j = c" by (simp add: rev_nth j_def)
  from k have j: "j < length s" by (simp add: j_def)
  from assms k have "rfind c s = int j"
    by (simp add: rfind_def k_def [symmetric] j_def)
  with at j show ?thesis by simp
qed

lemma field_of_stem: "hd (split_on CHR ''.'' (stem p)) = field_of_path p"
proof (cases "CHR ''.'' \<in> set (path_name p)")
  case True
  from rfind_index [OF True] show ?thesis
    by (simp add: stem_def Let_def hd_split_on field_of_path_def takeWhile_take_at)
next
  case False
  then show ?thesis
    by (simp add: stem_def Let_def hd_split_on field_of_path_def rfind_def)
qed

lemma field_of_name: "hd (split_on CHR ''.'' (path_name p)) = field_of_path p"
  by (simp add: hd_split_on field_of_path_def)

lemma init_from_dir_eq:
  "init_from_dir ps =
     (if list_all (\<lambda>p. field_of_path p \<noteq> ''cuts'') ps then Inl MissingCuts
      else Inr (removeAll ''cuts'' (remdups (map field_of_path ps)),
             (''cuts'', sort_key path_parts
                 (filter (\<lambda>p. field_of_path p = ''cuts'' \<and> extension_contains ''.jsonl'' p) ps))
             # map (\<lambda>field. (field, sort_key path_parts (filter (\<lambda>p. field_of_path p = field) ps)))
                 (removeAll ''cuts'' (remdups (map field_of_path ps)))))"
proof -
  have "(''cuts'' \<in> set (remdups (map field_of_path ps)))
        = (\<not> list_all (\<lambda>p. field_of_path p \<noteq> ''cuts'') ps)"
    by (induction ps) auto
  then show ?thesis
    by (simp add: init_from_dir_def Let_def field_of_stem field_of_name del: set_remdups)
qed

lemma check_shard_counts_None:
  "(check_shard_counts strs n flds = None)
   = list_all (\<lambda>f. map_option length (map_of strs f) = Some n) flds"
  by (induction flds) (auto split: option.splits)


lemma construct_result:
  "fst (construct e g fs dir split sh seed fns) =
     (if \<not> exactly_one_not_null fs dir then Inl NotExactlyOneInput
      else
        (case resolved e fs dir of
           Inl err \<Rightarrow> Inl err
         | Inr (flds, strs) \<Rightarrow>
             (case map_of strs ''cuts'' of
                None \<Rightarrow> Inl (KeyError ''cuts'')
              | Some primary \<Rightarrow>
                  (case check_shard_counts strs (length primary) flds of
                     Some err \<Rightarrow> Inl err
                   | None \<Rightarrow>
                       Inr \<lparr>split_for_dataloading = split, len_memo = None, in_dir = dir,
                            fields_set = flds, streams = strs, num_shards = length primary,
                            shards = (if sh
                                      then shuffle e (Random e seed)
                                             (unshuffled strs (length primary))
                                      else unshuffled strs (length primary)),
                            cut_map_fns = ifnone fns (replicate (length primary) None)\<rparr>))))"
  by (simp add: construct_def resolved_def unshuffled_def Let_def
           split: option.splits sum.splits prod.splits)

lemma explicit_counts:
  assumes "map_of f ''cuts'' = Some primary"
  shows "(check_shard_counts f (length primary) (removeAll ''cuts'' (remdups (map fst f))) = None)
         = (\<not> list_ex (\<lambda>field. map_option length (map_of f field) \<noteq> Some (length primary))
                (map fst f))"
  using assms by (auto simp: check_shard_counts_None list_all_iff list_ex_iff)

lemma map_of_fields:
  "map_of (map (\<lambda>field. (field, G field)) flds) k = (if k \<in> set flds then Some (G k) else None)"
  by (induction flds) auto

lemma dir_counts:
  "(check_shard_counts
      ((''cuts'', P) # map (\<lambda>field. (field, sort_key path_parts (filter (\<lambda>p. field_of_path p = field) ps)))
                         (removeAll ''cuts'' (remdups (map field_of_path ps))))
      n (removeAll ''cuts'' (remdups (map field_of_path ps))) = None)
   = (\<not> list_ex (\<lambda>q. field_of_path q \<noteq> ''cuts''
                     \<and> length (filter (\<lambda>p. field_of_path p = field_of_path q) ps) \<noteq> n) ps)"
  by (auto simp: check_shard_counts_None list_all_iff list_ex_iff map_of_fields)

text \<open>
  Claim C4. Construction fails exactly when there is a configuration error: neither or
  both of the mapping and the directory are given, or the primary field \<^verbatim>\<open>cuts\<close> is
  missing from the mapping or from the directory scan, or some field has a number of
  shard locations other than the primary field's. Otherwise it succeeds, and the number
  of shards is the number of the primary field's locations. A failure is returned at
  once; nothing is tried again.
\<close>

theorem construct_fails_iff_configuration_error:
  "(case fst (construct e g fs dir split sh seed fns) of
      Inl err \<Rightarrow> configuration_error e fs dir
    | Inr a \<Rightarrow> \<not> configuration_error e fs dir
               \<and> num_shards a = length (primary_locations e fs dir))"
proof (cases dir)
  case None
  note dir = this
  show ?thesis
  proof (cases fs)
    case None
    with dir show ?thesis
      by (simp add: construct_result exactly_one_not_null_def configuration_error_def)
  next
    case (Some f)
    show ?thesis
    proof (cases "map_of f ''cuts''")
      case None
      then have "''cuts'' \<notin> set (map fst f)" by (simp add: map_of_eq_None_iff)
      with None dir Some show ?thesis
        by (simp add: construct_result exactly_one_not_null_def configuration_error_def
              resolved_def init_from_inputs_def)
    next
      case (Some primary)
      then have "''cuts'' \<in> set (map fst f)"
        by (metis map_of_eq_None_iff option.distinct(1) set_map)
      with Some dir \<open>fs = Some f\<close> explicit_counts [OF Some] show ?thesis
        by (cases "check_shard_counts f (length primary)
                     (removeAll ''cuts'' (remdups (map fst f)))")
           (simp_all add: construct_result exactly_one_not_null_def configuration_error_def
              resolved_def init_from_inputs_def primary_locations_def)
    qed
  qed
next
  case (Some d)
  note dir = this
  show ?thesis
  proof (cases fs)
    case (Some f)
    with dir show ?thesis
      by (simp add: construct_result exactly_one_not_null_def configuration_error_def)
  next
    case None
    let ?ps = "glob_all e d"
    let ?P = "filter (\<lambda>p. field_of_path p = ''cuts'' \<and> extension_contains ''.jsonl'' p) ?ps"
    show ?thesis
    proof (cases "list_all (\<lambda>p. field_of_path p \<noteq> ''cuts'') ?ps")
      case True
      with None dir show ?thesis
        by (simp add: construct_result exactly_one_not_null_def configuration_error_def
              resolved_def init_from_dir_eq Let_def)
    next
      case False
      with None dir dir_counts [of "sort_key path_parts ?P" ?ps "length ?P"] show ?thesis
        by (cases "check_shard_counts
                     ((''cuts'', sort_key path_parts ?P)
                      # map (\<lambda>field. (field, sort_key path_parts
                                                  (filter (\<lambda>p. field_of_path p = field) ?ps)))
                          (removeAll ''cuts'' (remdups (map field_of_path ?ps))))
                     (length ?P) (removeAll ''cuts'' (remdups (map field_of_path ?ps)))")
           (simp_all add: construct_result exactly_one_not_null_def configuration_error_def
              resolved_def init_from_dir_eq Let_def primary_locations_def)
    qed
  qed
qed

section \<open>Properties of directory mode\<close>

lemma field_of_path_name: "field_of_path p = name_field (path_name p)"
  by (simp add: field_of_path_def name_field_def)

lemma length_filter_names:
  "length (filter (\<lambda>p. Q (path_name p)) ps) = size (filter_mset Q (mset (map path_name ps)))"
  by (induction ps) auto

lemma sample_names:
  "name_field ''cuts.000000.jsonl'' = ''cuts''"
  "name_field ''cuts.000001.jsonl'' = ''cuts''"
  "name_field ''recording.000000.tar'' = ''recording''"
  "name_field ''recording.000001.tar'' = ''recording''"
  by (simp_all add: name_field_def)


lemma sample_suffixes:
  "''.jsonl'' \<in> set (name_suffixes ''cuts.000000.jsonl'')"
  "''.jsonl'' \<in> set (name_suffixes ''cuts.000001.jsonl'')"
  by (simp_all add: name_suffixes_def)


lemma sorted_sort_parts: "sorted (map path_parts (sort_key path_parts xs))"
  by (rule sorted_sort_key)

lemma init_from_dir_groups:
  assumes "init_from_dir ps = Inr (flds, strs)"
  shows "set flds = field_of_path ` set ps - {''cuts''}
       \<and> list_all (\<lambda>field. map_of strs field
                      = Some (sort_key path_parts (filter (\<lambda>p. field_of_path p = field) ps))) flds
       \<and> map_of strs ''cuts''
           = Some (sort_key path_parts
                (filter (\<lambda>p. field_of_path p = ''cuts'' \<and> extension_contains ''.jsonl'' p) ps))
       \<and> list_all (\<lambda>(field, locs). sorted (map path_parts locs)) strs"
proof -
  let ?flds = "removeAll ''cuts'' (remdups (map field_of_path ps))"
  let ?G = "\<lambda>field. sort_key path_parts (filter (\<lambda>p. field_of_path p = field) ps)"
  let ?P = "sort_key path_parts
              (filter (\<lambda>p. field_of_path p = ''cuts'' \<and> extension_contains ''.jsonl'' p) ps)"
  from assms have f: "flds = ?flds" and s: "strs = (''cuts'', ?P) # map (\<lambda>field. (field, ?G field)) ?flds"
    by (auto simp: init_from_dir_eq split: if_splits)
  have 1: "set flds = field_of_path ` set ps - {''cuts''}"
    unfolding f by auto
  have 2: "list_all (\<lambda>field. map_of strs field = Some (?G field)) flds"
    unfolding f s by (simp add: list_all_iff map_of_fields)
  have 3: "map_of strs ''cuts'' = Some ?P"
    unfolding s by simp
  have 4: "list_all (\<lambda>(field, locs). sorted (map path_parts locs)) strs"
    unfolding s by (simp add: list_all_iff sorted_sort_parts del: sorted_sort_key)
  from 1 2 3 4 show ?thesis by blast
qed


lemma scenario_counts:
  assumes "mset (map path_name ps)
           = mset [''cuts.000000.jsonl'', ''cuts.000001.jsonl'',
                   ''recording.000000.tar'', ''recording.000001.tar'']"
  shows "field_of_path ` set ps = {''cuts'', ''recording''}"
    and "length (filter (\<lambda>p. field_of_path p = ''cuts'' \<and> extension_contains ''.jsonl'' p) ps) = 2"
    and "length (filter (\<lambda>p. field_of_path p = ''recording'') ps) = 2"
proof -
  let ?names = "[''cuts.000000.jsonl'', ''cuts.000001.jsonl'',
                 ''recording.000000.tar'', ''recording.000001.tar'']"
  from assms have "set (map path_name ps) = set ?names" by (rule mset_eq_setD)
  then have names: "path_name ` set ps = set ?names" by simp
  have "field_of_path ` set ps = name_field ` (path_name ` set ps)"
    by (simp add: image_image field_of_path_name)
  also have "\<dots> = name_field ` set ?names" by (simp only: names)
  also have "\<dots> = {''cuts'', ''recording''}" by (simp add: sample_names)
  finally show "field_of_path ` set ps = {''cuts'', ''recording''}" .
  have "length (filter (\<lambda>p. field_of_path p = ''cuts'' \<and> extension_contains ''.jsonl'' p) ps)
        = length (filter (\<lambda>p. (\<lambda>n. name_field n = ''cuts'' \<and> ''.jsonl'' \<in> set (name_suffixes n))
                                 (path_name p)) ps)"
    by (simp add: field_of_path_name extension_contains_def suffixes_def)
  also have "\<dots> = size (filter_mset (\<lambda>n. name_field n = ''cuts'' \<and> ''.jsonl'' \<in> set (name_suffixes n))
                         (mset (map path_name ps)))"
    by (rule length_filter_names)
  also have "\<dots> = size (filter_mset (\<lambda>n. name_field n = ''cuts'' \<and> ''.jsonl'' \<in> set (name_suffixes n))
                         (mset ?names))"
    by (simp only: assms)
  also have "\<dots> = 2" by (simp add: sample_names sample_suffixes)
  finally show "length (filter (\<lambda>p. field_of_path p = ''cuts'' \<and> extension_contains ''.jsonl'' p) ps) = 2" .
  have "length (filter (\<lambda>p. field_of_path p = ''recording'') ps)
        = length (filter (\<lambda>p. (\<lambda>n. name_field n = ''recording'') (path_name p)) ps)"
    by (simp add: field_of_path_name)
  also have "\<dots> = size (filter_mset (\<lambda>n. name_field n = ''recording'') (mset (map path_name ps)))"
    by (rule length_filter_names)
  also have "\<dots> = size (filter_mset (\<lambda>n. name_field n = ''recording'') (mset ?names))"
    by (simp only: assms)
  also have "\<dots> = 2" by (simp add: sample_names)
  finally show "length (filter (\<lambda>p. field_of_path p = ''recording'') ps) = 2" .
qed


lemma construct_succeeds:
  assumes "exactly_one_not_null fs dir"
      and "resolved e fs dir = Inr (flds, strs)"
      and "map_of strs ''cuts'' = Some primary"
      and "check_shard_counts strs (length primary) flds = None"
  shows "\<exists>a. construct e g fs dir split sh seed fns = (Inr a, g)
            \<and> fields_set a = flds \<and> streams a = strs \<and> num_shards a = length primary"
proof -
  from assms have "fst (construct e g fs dir split sh seed fns)
      = Inr \<lparr>split_for_dataloading = split, len_memo = None, in_dir = dir,
             fields_set = flds, streams = strs, num_shards = length primary,
             shards = (if sh then shuffle e (Random e seed) (unshuffled strs (length primary))
                       else unshuffled strs (length primary)),
             cut_map_fns = ifnone fns (replicate (length primary) None)\<rparr>"
    by (simp add: construct_result)
  moreover have "snd (construct e g fs dir split sh seed fns) = g"
    by (rule construct_global)
  ultimately have "construct e g fs dir split sh seed fns
      = (Inr \<lparr>split_for_dataloading = split, len_memo = None, in_dir = dir,
             fields_set = flds, streams = strs, num_shards = length primary,
             shards = (if sh then shuffle e (Random e seed) (unshuffled strs (length primary))
                       else unshuffled strs (length primary)),
             cut_map_fns = ifnone fns (replicate (length primary) None)\<rparr>, g)"
    by (simp add: prod_eq_iff)
  then show ?thesis by simp
qed


text \<open>
  Claim C8. In directory mode the fields are the leading name components, before the
  first extension separator, of the entries of the directory, the primary field apart;
  each field's stream is its group of entries in sorted order, the primary field's
  being its entries with a line-oriented-manifest extension. For a directory holding
  exactly \<^verbatim>\<open>cuts.000000.jsonl\<close>, \<^verbatim>\<open>cuts.000001.jsonl\<close>, \<^verbatim>\<open>recording.000000.tar\<close> and
  \<^verbatim>\<open>recording.000001.tar\<close>, listed in any order, construction succeeds with the field
  set \<^verbatim>\<open>{recording}\<close> and two shards.
\<close>

theorem directory_mode_resolution:
  assumes "init_from_dir ps = Inr (flds, strs)"
      and "mset (map path_name (glob_all e d))
           = mset [''cuts.000000.jsonl'', ''cuts.000001.jsonl'',
                   ''recording.000000.tar'', ''recording.000001.tar'']"
  shows "set flds = field_of_path ` set ps - {''cuts''}
       \<and> list_all (\<lambda>field. map_of strs field
                      = Some (sort_key path_parts (filter (\<lambda>p. field_of_path p = field) ps))) flds
       \<and> map_of strs ''cuts''
           = Some (sort_key path_parts
                (filter (\<lambda>p. field_of_path p = ''cuts'' \<and> extension_contains ''.jsonl'' p) ps))
       \<and> list_all (\<lambda>(field, locs). sorted (map path_parts locs)) strs
       \<and> (\<exists>a. construct e g None (Some d) split sh seed fns = (Inr a, g)
              \<and> set (fields_set a) = {''recording''} \<and> num_shards a = 2)"
proof -
  let ?qs = "glob_all e d"
  let ?flds = "removeAll ''cuts'' (remdups (map field_of_path ?qs))"
  let ?P = "filter (\<lambda>p. field_of_path p = ''cuts'' \<and> extension_contains ''.jsonl'' p) ?qs"
  let ?strs = "(''cuts'', sort_key path_parts ?P)
       # map (\<lambda>field. (field, sort_key path_parts (filter (\<lambda>p. field_of_path p = field) ?qs))) ?flds"
  note counts = scenario_counts [OF assms(2)]
  have "''cuts'' \<in> field_of_path ` set ?qs" by (simp only: counts(1)) simp
  then obtain q0 where "q0 \<in> set ?qs" "field_of_path q0 = ''cuts''" by (auto simp: image_iff)
  then have present: "\<not> list_all (\<lambda>p. field_of_path p \<noteq> ''cuts'') ?qs"
    by (auto simp: list_all_iff)
  have either: "field_of_path q = ''cuts'' \<or> field_of_path q = ''recording''"
    if "q \<in> set ?qs" for q
  proof -
    from that have "field_of_path q \<in> field_of_path ` set ?qs" by (rule imageI)
    then have "field_of_path q \<in> {''cuts'', ''recording''}" by (simp only: counts(1))
    then show ?thesis by simp
  qed
  from present have res: "resolved e None (Some d) = Inr (?flds, ?strs)"
    by (simp add: resolved_def init_from_dir_eq)
  have prim: "map_of ?strs ''cuts'' = Some (sort_key path_parts ?P)" by simp
  have "\<not> list_ex (\<lambda>q. field_of_path q \<noteq> ''cuts''
       \<and> length (filter (\<lambda>p. field_of_path p = field_of_path q) ?qs) \<noteq> length ?P) ?qs"
  proof
    assume "list_ex (\<lambda>q. field_of_path q \<noteq> ''cuts''
       \<and> length (filter (\<lambda>p. field_of_path p = field_of_path q) ?qs) \<noteq> length ?P) ?qs"
    then obtain q where q: "q \<in> set ?qs" "field_of_path q \<noteq> ''cuts''"
      "length (filter (\<lambda>p. field_of_path p = field_of_path q) ?qs) \<noteq> length ?P"
      by (auto simp: list_ex_iff)
    from either [OF q(1)] q(2) have "field_of_path q = ''recording''" by simp
    with q(3) counts(2) counts(3) show False by simp
  qed
  with dir_counts [of "sort_key path_parts ?P" ?qs "length ?P"]
  have ok: "check_shard_counts ?strs (length (sort_key path_parts ?P)) ?flds = None"
    by simp
  have one: "exactly_one_not_null (None :: (string \<times> loc list) list option) (Some d)"
    by (simp add: exactly_one_not_null_def)
  from construct_succeeds [OF one res prim ok, of g split sh seed fns] obtain a where
    a: "construct e g None (Some d) split sh seed fns = (Inr a, g)"
    and fa: "fields_set a = ?flds" and na: "num_shards a = length (sort_key path_parts ?P)"
    by blast
  have "set ?flds = field_of_path ` set ?qs - {''cuts''}" by simp
  also have "\<dots> = {''cuts'', ''recording''} - {''cuts''}" by (simp only: counts(1))
  also have "\<dots> = {''recording''}" by simp
  finally have "set (fields_set a) = {''recording''}" by (simp only: fa)
  moreover from na counts(2) have "num_shards a = 2" by simp
  ultimately have "\<exists>a. construct e g None (Some d) split sh seed fns = (Inr a, g)
              \<and> set (fields_set a) = {''recording''} \<and> num_shards a = 2"
    using a by blast
  with init_from_dir_groups [OF assms(1)] show ?thesis by blast
qed

lemma sample_glob:
  "glob_all sample_env ''data''
   = [''data/recording.000001.tar'', ''data/cuts.000000.jsonl'',
      ''data/recording.000000.tar'', ''data/cuts.000001.jsonl'']"
  by (simp add: sample_env_def)

lemma sample_path_names:
  "path_name ''data/recording.000001.tar'' = ''recording.000001.tar''"
  "path_name ''data/cuts.000000.jsonl'' = ''cuts.000000.jsonl''"
  "path_name ''data/recording.000000.tar'' = ''recording.000000.tar''"
  "path_name ''data/cuts.000001.jsonl'' = ''cuts.000001.jsonl''"
  by (simp_all add: path_name_def path_components_def)

lemma sample_scan_fields:
  "map field_of_path (glob_all sample_env ''data'')
   = [''recording'', ''cuts'', ''recording'', ''cuts'']"
  by (simp add: sample_glob field_of_path_name sample_path_names sample_names)

lemma sample_scan_names:
  "map path_name (glob_all sample_env ''data'')
   = [''recording.000001.tar'', ''cuts.000000.jsonl'',
      ''recording.000000.tar'', ''cuts.000001.jsonl'']"
  by (simp add: sample_glob sample_path_names)


lemma sample_scan_mset:
  "mset (map path_name (glob_all sample_env ''data''))
       = mset [''cuts.000000.jsonl'', ''cuts.000001.jsonl'',
               ''recording.000000.tar'', ''recording.000001.tar'']"
  unfolding sample_scan_names by simp

lemma sample_scan_present:
  "\<not> list_all (\<lambda>p. field_of_path p \<noteq> ''cuts'') (glob_all sample_env ''data'')"
proof
  assume "list_all (\<lambda>p. field_of_path p \<noteq> ''cuts'') (glob_all sample_env ''data'')"
  then have "list_all (\<lambda>f. f \<noteq> ''cuts'') (map field_of_path (glob_all sample_env ''data''))"
    by (simp add: list_all_iff)
  then show False unfolding sample_scan_fields by simp
qed


theorem directory_mode_resolution_witness:
  "\<exists>flds strs a.
     init_from_dir (glob_all sample_env ''data'') = Inr (flds, strs)
   \<and> mset (map path_name (glob_all sample_env ''data''))
       = mset [''cuts.000000.jsonl'', ''cuts.000001.jsonl'',
               ''recording.000000.tar'', ''recording.000001.tar'']
   \<and> set flds = {''recording''}
   \<and> list_all (\<lambda>(field, locs). sorted (map path_parts locs)) strs
   \<and> construct sample_env (0::int) None (Some ''data'') False False 42 (None :: (string cut \<Rightarrow> string cut) option list option)
         = (Inr a, 0)
   \<and> set (fields_set a) = {''recording''} \<and> num_shards a = 2"
proof -
  from sample_scan_present obtain flds strs where
    h1: "init_from_dir (glob_all sample_env ''data'') = Inr (flds, strs)"
    by (simp add: init_from_dir_eq)
  note r = directory_mode_resolution [OF h1 sample_scan_mset, of 0 False False 42 "None :: (string cut \<Rightarrow> string cut) option list option"]
  from r have "set flds = field_of_path ` set (glob_all sample_env ''data'') - {''cuts''}"
    by (rule conjunct1)
  also have "field_of_path ` set (glob_all sample_env ''data'')
             = set (map field_of_path (glob_all sample_env ''data''))"
    by simp
  also have "\<dots> - {''cuts''} = {''recording''}"
    unfolding sample_scan_fields by auto
  finally have f: "set flds = {''recording''}" .
  from r [THEN conjunct2, THEN conjunct2, THEN conjunct2, THEN conjunct1]
  have s: "list_all (\<lambda>(field, locs). sorted (map path_parts locs)) strs" .
  from r [THEN conjunct2, THEN conjunct2, THEN conjunct2, THEN conjunct2]
  obtain a where
    a: "construct sample_env (0::int) None (Some ''data'') False False 42 (None :: (string cut \<Rightarrow> string cut) option list option)
         = (Inr a, 0)
        \<and> set (fields_set a) = {''recording''} \<and> num_shards a = 2"
    by (rule exE)
  note a1 = a [THEN conjunct1] and a2 = a [THEN conjunct2, THEN conjunct1]
    and a3 = a [THEN conjunct2, THEN conjunct2]
  show ?thesis
    by (intro exI conjI) (rule h1 sample_scan_mset f s a1 a2 a3)+
qed

section \<open>Properties of iterating twice\<close>

lemma call_keeps_world:
  "keeps_world fn \<Longrightarrow> call_cut_map_fn fn w c = (apply_cut_map_fn (fn_at w fn) c, w)"
  by (cases fn)
     (simp_all add: keeps_world_def call_cut_map_fn_def apply_cut_map_fn_def fn_at_def
        prod_eq_iff)

lemma merge_shard_w_keeps_world:
  "keeps_world fn \<Longrightarrow>
   merge_shard_w origin fn names cuts iters w
   = (merge_shard origin (fn_at w fn) names cuts iters, w)"
proof (induction cuts arbitrary: iters)
  case Nil
  then show ?case by simp
next
  case (Cons c cuts)
  then show ?case
    by (simp add: call_keeps_world Let_def split: prod.splits pulled.splits sum.splits)
qed

lemma iter_shard_w_keeps_world:
  "keeps_world fn \<Longrightarrow> iter_shard_w e shard fn w = (iter_shard e shard (fn_at w fn), w)"
  by (simp add: iter_shard_w_def iter_shard_def Let_def merge_shard_w_keeps_world
        split: option.splits)

lemma iter_shards_w_keeps_world:
  "list_all keeps_world (map snd sfs) \<Longrightarrow>
   iter_shards_w e sfs w = (iter_shards e (map (\<lambda>(s, fn). (s, fn_at w fn)) sfs), w)"
proof (induction sfs)
  case Nil
  then show ?case by simp
next
  case (Cons x sfs)
  obtain s fn where x: "x = (s, fn)" by (cases x)
  from Cons.prems x have k: "keeps_world fn" and r: "list_all keeps_world (map snd sfs)"
    by simp_all
  from Cons.IH [OF r] x show ?case
    by (simp add: iter_shard_w_keeps_world [OF k] Let_def split: option.splits prod.splits)
qed

lemma iter_shar_w_keeps_world:
  assumes "list_all keeps_world (cut_map_fns self)"
  shows "iter_shar_w e self w
       = (iter_shards e
            (zip (if split_for_dataloading self then shards_for_dataloading e self
                  else shards self)
                 (map (fn_at w) (cut_map_fns self))),
          self, w)"
proof -
  let ?shs = "if split_for_dataloading self then shards_for_dataloading e self else shards self"
  from assms have "list_all keeps_world (map snd (zip ?shs (cut_map_fns self)))"
    unfolding list_all_iff by (auto dest: set_zip_rightD)
  from iter_shards_w_keeps_world [OF this, of e w]
  have "iter_shards_w e (zip ?shs (cut_map_fns self)) w
      = (iter_shards e (zip ?shs (map (fn_at w) (cut_map_fns self))), w)"
    by (simp only: zip_map2)
  then show ?thesis
    by (simp add: iter_shar_w_def Let_def)
qed

text \<open>
  Claim C9, as amended. When none of the configured transforms changes the world,
  iterating twice gives the same records in the same order and the same ending both
  times: each pass goes over the whole shard list from its first shard, opens every
  stream from its location again, and applies the function that each transform computes
  in the world the caller started in; the instance and the world are afterwards as they
  were before.
\<close>

theorem iterate_twice_same_when_transforms_keep_world:
  assumes "list_all keeps_world (cut_map_fns self)"
  shows "iterate_twice e self w
       = (iter_shards e
            (zip (if split_for_dataloading self then shards_for_dataloading e self
                  else shards self)
                 (map (fn_at w) (cut_map_fns self))),
          iter_shards e
            (zip (if split_for_dataloading self then shards_for_dataloading e self
                  else shards self)
                 (map (fn_at w) (cut_map_fns self))),
          self, w)"
  by (simp add: iterate_twice_def iter_shar_w_keeps_world [OF assms])

lemma keeps_world_mark_w: "keeps_world (Some (mark_w m))"
  by (simp add: keeps_world_def mark_w_def)

lemma keeps_world_None: "keeps_world None"
  by (simp add: keeps_world_def)

theorem iterate_twice_same_when_transforms_keep_world_witness:
  "\<exists>a. construct sample_env (0::int)
         (Some [(''cuts'', [''data/cuts.000000.jsonl'', ''data/cuts.000001.jsonl''])])
         None False False 42 (Some [Some (mark_w ''f0''), None])
         = (Inr a, 0)
     \<and> list_all keeps_world (cut_map_fns a)
     \<and> iterate_twice sample_env a (5::nat)
       = (([\<lparr>id_cut = ''a'', attached = [''marker'' \<mapsto> ''f0''],
             shard_origin = Some ''data/cuts.000000.jsonl''\<rparr>,
            \<lparr>id_cut = ''b'', attached = [''marker'' \<mapsto> ''f0''],
             shard_origin = Some ''data/cuts.000000.jsonl''\<rparr>,
            \<lparr>id_cut = ''c'', attached = Map.empty,
             shard_origin = Some ''data/cuts.000001.jsonl''\<rparr>],
           None),
          ([\<lparr>id_cut = ''a'', attached = [''marker'' \<mapsto> ''f0''],
             shard_origin = Some ''data/cuts.000000.jsonl''\<rparr>,
            \<lparr>id_cut = ''b'', attached = [''marker'' \<mapsto> ''f0''],
             shard_origin = Some ''data/cuts.000000.jsonl''\<rparr>,
            \<lparr>id_cut = ''c'', attached = Map.empty,
             shard_origin = Some ''data/cuts.000001.jsonl''\<rparr>],
           None),
          a, 5)"
proof -
  obtain a where a: "construct sample_env (0::int)
         (Some [(''cuts'', [''data/cuts.000000.jsonl'', ''data/cuts.000001.jsonl''])])
         None False False 42 (Some [Some (mark_w ''f0''), None])
         = (Inr a, 0)"
    by (simp add: sample_explicit)
  then have sp: "split_for_dataloading a = False"
    and sh: "shards a = [[(''cuts'', ''data/cuts.000000.jsonl'')],
                         [(''cuts'', ''data/cuts.000001.jsonl'')]]"
    and fn: "cut_map_fns a = [Some (mark_w ''f0''), None]"
    by (auto simp: sample_explicit ifnone_def)
  have k: "list_all keeps_world (cut_map_fns a)"
    by (simp add: fn keeps_world_mark_w keeps_world_None)
  have "iter_shards sample_env
          (zip (if split_for_dataloading a then shards_for_dataloading sample_env a
                else shards a)
               (map (fn_at (5::nat)) (cut_map_fns a)))
      = ([\<lparr>id_cut = ''a'', attached = [''marker'' \<mapsto> ''f0''],
            shard_origin = Some ''data/cuts.000000.jsonl''\<rparr>,
          \<lparr>id_cut = ''b'', attached = [''marker'' \<mapsto> ''f0''],
            shard_origin = Some ''data/cuts.000000.jsonl''\<rparr>,
          \<lparr>id_cut = ''c'', attached = Map.empty,
            shard_origin = Some ''data/cuts.000001.jsonl''\<rparr>],
         None)"
    by (simp add: sp sh fn fn_at_def mark_w_def iter_shard_def sample_manifest
          apply_cut_map_fn_def sample_cut_def mark_def setattr_def Let_def)
  with iterate_twice_same_when_transforms_keep_world [OF k, of sample_env 5]
  have "iterate_twice sample_env a (5::nat)
       = (([\<lparr>id_cut = ''a'', attached = [''marker'' \<mapsto> ''f0''],
             shard_origin = Some ''data/cuts.000000.jsonl''\<rparr>,
            \<lparr>id_cut = ''b'', attached = [''marker'' \<mapsto> ''f0''],
             shard_origin = Some ''data/cuts.000000.jsonl''\<rparr>,
            \<lparr>id_cut = ''c'', attached = Map.empty,
             shard_origin = Some ''data/cuts.000001.jsonl''\<rparr>],
           None),
          ([\<lparr>id_cut = ''a'', attached = [''marker'' \<mapsto> ''f0''],
             shard_origin = Some ''data/cuts.000000.jsonl''\<rparr>,
            \<lparr>id_cut = ''b'', attached = [''marker'' \<mapsto> ''f0''],
             shard_origin = Some ''data/cuts.000000.jsonl''\<rparr>,
            \<lparr>id_cut = ''c'', attached = Map.empty,
             shard_origin = Some ''data/cuts.000001.jsonl''\<rparr>],
           None),
          a, 5)"
    by simp
  with a k show ?thesis by blast
qed

text \<open>
  Claim C9 as stated fails when a transform keeps state: the transform of the first
  shard counts its calls and tags the first record it ever sees differently from the
  later ones, so the first records of the two passes differ.
\<close>

theorem stateful_transform_second_pass_counterexample:
  "\<not> isl (fst (construct sample_env (0::int)
         (Some [(''cuts'', [''data/cuts.000000.jsonl'', ''data/cuts.000001.jsonl''])])
         None False False 42 (Some [Some tag_pass, None])))
   \<and> map seen (fst (fst (iterate_twice sample_env
        (projr (fst (construct sample_env (0::int)
           (Some [(''cuts'', [''data/cuts.000000.jsonl'', ''data/cuts.000001.jsonl''])])
           None False False 42 (Some [Some tag_pass, None]))))
        0)))
     = [Some ''first'', Some ''again'', None]
   \<and> map seen (fst (fst (snd (iterate_twice sample_env
        (projr (fst (construct sample_env (0::int)
           (Some [(''cuts'', [''data/cuts.000000.jsonl'', ''data/cuts.000001.jsonl''])])
           None False False 42 (Some [Some tag_pass, None]))))
        0))))
     = [Some ''again'', Some ''again'', None]"
  by (simp add: sample_explicit sample_manifest ifnone_def iterate_twice_def iter_shar_w_def
        iter_shard_w_def Let_def call_cut_map_fn_def tag_pass_def seen_def setattr_def
        sample_cut_def next_fields.simps attach_fields.simps)

end
